theory Spec2Isabelle
  imports Complex_Main "HOL-Library.Word"
begin

chapter \<open>career-catalyst: the live audio interview session and the retry wrapper\<close>

text \<open>
  A shallow embedding of the audio-session code of \<^verbatim>\<open>src/components/Home.tsx\<close>
  (component \<^verbatim>\<open>InterviewPrep\<close>) and of \<^verbatim>\<open>withRetry\<close> in
  \<^verbatim>\<open>src/services/geminiService.ts\<close>.

  Conventions.
  \<^item> A JavaScript exception is a value of \<open>error\<close>; a function that can throw returns a sum
    with \<open>Inl\<close> for the throw.
  \<^item> A string that carries binary data (the argument of \<^verbatim>\<open>btoa\<close>, the result of
    \<^verbatim>\<open>atob\<close>, a base64 text) is the list of its UTF-16 code units, each a \<open>nat\<close>.
    Transcript text, which is only concatenated and compared, is a HOL \<open>string\<close>.
  \<^item> A \<^verbatim>\<open>Uint8Array\<close> is an \<open>8 word list\<close>.
  \<^item> Times on the audio clock (seconds) are \<open>real\<close>. The code computes them in IEEE
    doubles; the model uses only \<open>max\<close>, \<open>+\<close>, \<open>\<le>\<close> and the subtraction and
    scaling of the timer delay on them.
\<close>

section \<open>Definitions\<close>

subsection \<open>Exceptions\<close>

datatype error =
    InvalidCharacterError
  | RangeError
  | NotSupportedError
  | InvalidStateError
  | TypeError
  | NotAllowedError

subsection \<open>The platform's base64 functions\<close>

text \<open>
  \<^verbatim>\<open>btoa\<close> and \<^verbatim>\<open>atob\<close> are functions of the browser, not of the repository.
  They are modelled after the HTML standard: \<^verbatim>\<open>btoa\<close> throws InvalidCharacterError on a
  code unit above U+00FF and otherwise encodes the code units as bytes in RFC 4648 base64
  with padding; \<^verbatim>\<open>atob\<close> is the forgiving-base64 decode (ASCII whitespace removed,
  one or two trailing \<^verbatim>\<open>=\<close> removed when the length is a multiple of four, failure on
  a length of 1 modulo 4 or on a code unit outside the alphabet, a final partial group of
  two or three characters giving one or two bytes).
\<close>

type_synonym js_binary_string = "nat list"

definition enc6 :: "nat \<Rightarrow> nat" where
  \<comment> \<open>the base64 alphabet \<^verbatim>\<open>A-Z a-z 0-9 + /\<close>, index to code unit\<close>
  "enc6 i = (if i < 26 then i + 65 else if i < 52 then i + 71
             else if i < 62 then i - 4 else if i = 62 then 43 else 47)"

definition dec6 :: "nat \<Rightarrow> nat option" where
  \<comment> \<open>code unit to index; None outside the alphabet\<close>
  "dec6 c = (if 65 \<le> c \<and> c \<le> 90 then Some (c - 65)
             else if 97 \<le> c \<and> c \<le> 122 then Some (c - 71)
             else if 48 \<le> c \<and> c \<le> 57 then Some (c + 4)
             else if c = 43 then Some 62
             else if c = 47 then Some 63
             else None)"

fun b64_groups :: "nat list \<Rightarrow> nat list" where
  "b64_groups (a # b # c # rest) =
     enc6 (a div 4) # enc6 ((a mod 4) * 16 + b div 16) #
     enc6 ((b mod 16) * 4 + c div 64) # enc6 (c mod 64) # b64_groups rest"
| "b64_groups [a, b] =
     [enc6 (a div 4), enc6 ((a mod 4) * 16 + b div 16), enc6 ((b mod 16) * 4), 61]"
| "b64_groups [a] = [enc6 (a div 4), enc6 ((a mod 4) * 16), 61, 61]"
| "b64_groups [] = []"

definition btoa :: "js_binary_string \<Rightarrow> error + js_binary_string" where
  "btoa s = (if list_all (\<lambda>c. c \<le> 255) s then Inr (b64_groups s)
             else Inl InvalidCharacterError)"

definition ascii_whitespace :: "nat \<Rightarrow> bool" where
  "ascii_whitespace c = (c = 9 \<or> c = 10 \<or> c = 12 \<or> c = 13 \<or> c = 32)"

definition strip_padding :: "nat list \<Rightarrow> nat list" where
  "strip_padding d =
     (if length d mod 4 = 0 \<and> d \<noteq> [] \<and> last d = 61
      then (if butlast d \<noteq> [] \<and> last (butlast d) = 61 then butlast (butlast d)
            else butlast d)
      else d)"

fun sextets :: "nat list \<Rightarrow> nat list option" where
  "sextets [] = Some []"
| "sextets (c # cs) =
     (case dec6 c of None \<Rightarrow> None
      | Some v \<Rightarrow> (case sextets cs of None \<Rightarrow> None | Some vs \<Rightarrow> Some (v # vs)))"

fun b64_bytes :: "nat list \<Rightarrow> nat list" where
  "b64_bytes (s0 # s1 # s2 # s3 # rest) =
     (s0 * 4 + s1 div 16) # ((s1 mod 16) * 16 + s2 div 4) # ((s2 mod 4) * 64 + s3) #
     b64_bytes rest"
| "b64_bytes [s0, s1, s2] = [s0 * 4 + s1 div 16, (s1 mod 16) * 16 + s2 div 4]"
| "b64_bytes [s0, s1] = [s0 * 4 + s1 div 16]"
| "b64_bytes [s0] = []"
| "b64_bytes [] = []"

definition atob :: "js_binary_string \<Rightarrow> error + js_binary_string" where
  "atob s =
     (let d = strip_padding (filter (\<lambda>c. \<not> ascii_whitespace c) s) in
      if length d mod 4 = 1 then Inl InvalidCharacterError
      else (case sextets d of None \<Rightarrow> Inl InvalidCharacterError
            | Some vs \<Rightarrow> Inr (b64_bytes vs)))"

subsection \<open>Audio helper functions (Home.tsx, lines 116-165)\<close>

text \<open>
  \<^verbatim>\<open>encode\<close>: the loop appends \<^verbatim>\<open>String.fromCharCode(bytes[i])\<close>, the code unit
  with the byte's value, to \<^verbatim>\<open>binary\<close>; the result is \<^verbatim>\<open>btoa(binary)\<close>.
\<close>

definition encode :: "8 word list \<Rightarrow> error + js_binary_string" where
  "encode bytes = btoa (map unat bytes)"

text \<open>
  \<^verbatim>\<open>decode\<close>: \<^verbatim>\<open>atob\<close>, then each \<^verbatim>\<open>charCodeAt(i)\<close> is stored into a
  \<^verbatim>\<open>Uint8Array\<close> of the string's length; the store keeps the value modulo 256.
\<close>

definition decode :: "js_binary_string \<Rightarrow> error + 8 word list" where
  "decode base64 =
     (case atob base64 of Inl e \<Rightarrow> Inl e
      | Inr binaryString \<Rightarrow> Inr (map of_nat binaryString))"

text \<open>
  \<^verbatim>\<open>createBlob\<close>: each sample is multiplied by 32768 and stored into an
  \<^verbatim>\<open>Int16Array\<close>; the store truncates towards zero and keeps the value modulo
  \<open>2 ^ 16\<close>. The bytes of the array's buffer (little-endian) are encoded. A sample is a
  \<open>real\<close> (the values of the \<^verbatim>\<open>Float32Array\<close>; the product with a power of two is
  exact in the code's arithmetic). The MIME type is the constant
  \<^verbatim>\<open>audio/pcm;rate=16000\<close> and is left out.
\<close>

definition to_int16 :: "real \<Rightarrow> 16 word" where
  "to_int16 x = word_of_int (if 0 \<le> x then \<lfloor>x\<rfloor> else \<lceil>x\<rceil>)"

definition int16_bytes :: "16 word \<Rightarrow> 8 word list" where
  "int16_bytes w = [ucast w, ucast (drop_bit 8 w)]"

definition createBlob :: "real list \<Rightarrow> error + js_binary_string" where
  "createBlob data = encode (concat (map (\<lambda>x. int16_bytes (to_int16 (x * 32768))) data))"

text \<open>
  \<^verbatim>\<open>decodeAudioData(data, ctx, sampleRate, 1)\<close>, the mono case of its only call:
  \<^verbatim>\<open>new Int16Array(data.buffer)\<close> throws RangeError on an odd number of bytes,
  \<^verbatim>\<open>createBuffer\<close> throws NotSupportedError on a length of zero frames, and each
  sample is the 16-bit integer divided by 32768. The buffer's \<^verbatim>\<open>duration\<close> is its
  length in frames over its sample rate.
\<close>

record AudioBuffer =
  sampleRate :: nat
  channelData :: "real list"

definition duration :: "AudioBuffer \<Rightarrow> real" where
  "duration b = real (length (channelData b)) / real (sampleRate b)"

fun int16_array :: "8 word list \<Rightarrow> 16 word list" where
  "int16_array (lo # hi # rest) = (or (push_bit 8 (ucast hi)) (ucast lo)) # int16_array rest"
| "int16_array _ = []"

definition decodeAudioData :: "8 word list \<Rightarrow> nat \<Rightarrow> error + AudioBuffer" where
  "decodeAudioData data rate =
     (if odd (length data) then Inl RangeError
      else if int16_array data = [] then Inl NotSupportedError
      else Inr \<lparr>sampleRate = rate,
                channelData = map (\<lambda>w. real_of_int (sint w) / 32768) (int16_array data)\<rparr>)"

subsection \<open>JavaScript values (the type \<^verbatim>\<open>any\<close> of a caught error)\<close>

text \<open>
  A thrown value is any JavaScript value. An object is the list of its own properties;
  an \<^verbatim>\<open>Error\<close> instance is an object with a \<^verbatim>\<open>message\<close> property.
\<close>

datatype js_value =
    JUndefined
  | JNull
  | JBool bool
  | JNum real
  | JStr string
  | JObj "(string \<times> js_value) list"

text \<open>
  \<^verbatim>\<open>v?.k\<close> for the keys the code reads (\<^verbatim>\<open>error\<close>, \<^verbatim>\<open>code\<close>,
  \<^verbatim>\<open>status\<close>, \<^verbatim>\<open>message\<close>): the property of an object, and
  \<^verbatim>\<open>undefined\<close> on \<^verbatim>\<open>null\<close>, \<^verbatim>\<open>undefined\<close>, a primitive or an object
  without the key.
\<close>

definition get_prop :: "js_value \<Rightarrow> string \<Rightarrow> js_value" where
  "get_prop v k =
     (case v of
        JObj kvs \<Rightarrow> (case map_of kvs k of Some x \<Rightarrow> x | None \<Rightarrow> JUndefined)
      | _ \<Rightarrow> JUndefined)"

text \<open>\<^verbatim>\<open>s.includes(t)\<close>: \<open>t\<close> occurs in \<open>s\<close> as a contiguous substring.\<close>

fun js_includes :: "string \<Rightarrow> string \<Rightarrow> bool" where
  "js_includes [] t = (t = [])"
| "js_includes (c # cs) t = (take (length t) (c # cs) = t \<or> js_includes cs t)"

text \<open>
  \<^verbatim>\<open>s.toLowerCase()\<close> on the ASCII letters; HOL characters are bytes, and every other
  byte is left as it is.
\<close>

definition lower_char :: "char \<Rightarrow> char" where
  "lower_char c =
     (if 65 \<le> (of_char c :: nat) \<and> (of_char c :: nat) \<le> 90
      then char_of ((of_char c :: nat) + 32) else c)"

definition toLowerCase :: "string \<Rightarrow> string" where
  "toLowerCase s = map lower_char s"

subsection \<open>withRetry (geminiService.ts, lines 10-76)\<close>

definition MAX_RETRIES :: nat where
  "MAX_RETRIES = 3"

definition INITIAL_BACKOFF_MS :: nat where
  "INITIAL_BACKOFF_MS = 1000"

text \<open>
  The body of the \<^verbatim>\<open>catch\<close> block up to the decision, lines 39-64. \<open>parse\<close> is
  \<^verbatim>\<open>JSON.parse\<close>, with \<open>None\<close> for its SyntaxError, which the inner
  \<^verbatim>\<open>try\<close> swallows.
\<close>

definition rate_limit_details :: "js_value \<Rightarrow> bool" where
  \<comment> \<open>\<^verbatim>\<open>x?.error?.code === 429 || x?.error?.status === 'RESOURCE_EXHAUSTED'\<close>\<close>
  "rate_limit_details x =
     (get_prop (get_prop x ''error'') ''code'' = JNum 429 \<or>
      get_prop (get_prop x ''error'') ''status'' = JStr ''RESOURCE_EXHAUSTED'')"

definition isRateLimitError :: "(string \<Rightarrow> js_value option) \<Rightarrow> js_value \<Rightarrow> bool" where
  "isRateLimitError parse error =
     (if rate_limit_details error then True
      else (case get_prop error ''message'' of
              JStr message \<Rightarrow>
                (if (case parse message of None \<Rightarrow> False
                     | Some errorJson \<Rightarrow> rate_limit_details errorJson)
                 then True
                 else (js_includes message ''429'' \<or>
                       js_includes message ''RESOURCE_EXHAUSTED'' \<or>
                       js_includes (toLowerCase message) ''rate limit''))
            | _ \<Rightarrow> False))"

text \<open>
  A run of \<^verbatim>\<open>withRetry\<close>: what it returns or throws, how many times it invoked
  \<^verbatim>\<open>apiCall\<close>, and the delays (milliseconds) it waited, in order.
\<close>

record 'a retry_run =
  outcome :: "js_value + 'a"
  calls :: nat
  delays :: "nat list"

text \<open>
  \<^verbatim>\<open>apiCall\<close> is an effectful thunk: \<open>api n\<close> is what its invocation number \<open>n\<close>
  (counted from 0) does, \<open>Inr v\<close> when the promise resolves to \<open>v\<close> and \<open>Inl e\<close> when it
  rejects with \<open>e\<close>. The loop state is the loop variable \<open>i\<close>, \<^verbatim>\<open>lastError\<close>, and the
  run so far.
\<close>

function withRetry_loop ::
  "(string \<Rightarrow> js_value option) \<Rightarrow> (nat \<Rightarrow> js_value + 'a) \<Rightarrow> nat \<Rightarrow> js_value \<Rightarrow>
   nat \<Rightarrow> nat list \<Rightarrow> 'a retry_run" where
  "withRetry_loop parse api i lastError n ds =
     (if i < MAX_RETRIES then
        (case api n of
           Inr v \<Rightarrow> \<lparr>outcome = Inr v, calls = n + 1, delays = ds\<rparr>
         | Inl error \<Rightarrow>
             (if isRateLimitError parse error \<and> i < MAX_RETRIES - 1
              then withRetry_loop parse api (i + 1) error (n + 1)
                     (ds @ [INITIAL_BACKOFF_MS * 2 ^ i])
              else \<lparr>outcome = Inl error, calls = n + 1, delays = ds\<rparr>))
      else \<lparr>outcome = Inl lastError, calls = n, delays = ds\<rparr>)"
  by pat_completeness auto
termination
  by (relation "measure (\<lambda>(parse, api, i, lastError, n, ds). MAX_RETRIES - i)") auto

definition withRetry ::
  "(string \<Rightarrow> js_value option) \<Rightarrow> (nat \<Rightarrow> js_value + 'a) \<Rightarrow> 'a retry_run" where
  "withRetry parse api = withRetry_loop parse api 0 JNull 0 []"

subsection \<open>The component InterviewPrep: its state\<close>

datatype SessionState =
    SS_idle | SS_configuring | SS_chat_active | SS_technical_active | SS_feedback
  | SS_session_completed | SS_elevator_pitch

datatype AudioSessionStatus = idle | connecting | waiting_for_ai | ai_speaking | listening

datatype msg_role = user | model

datatype InterviewType = Behavioral | Skill_Based | Situational | Specific_Job | Elevator_Pitch

record ChatMessage =
  role :: msg_role
  content :: string

record completed_session =
  cs_messages :: "ChatMessage list"
  cs_type :: InterviewType
  cs_isAudio :: bool

text \<open>
  The React state of the component (its \<^verbatim>\<open>useState\<close> cells, lines 203-253). The
  cells of the configuration form, which only feed the system instruction, are left out.
  Objects of the SDK and of the browser are handles (\<open>nat\<close>).
\<close>

record ui_state =
  sessionState :: SessionState
  isLoading :: bool
  error :: "string option"
  modalConfig :: "InterviewType option"
  isAudioSessionActive :: bool
  chatSession :: "nat option"
  messages :: "ChatMessage list"
  isSpeaking :: bool
  questions :: "string list"
  answers :: "string list"
  feedback :: "string option"
  timeLeft :: "nat option"
  audioSessionStatus :: AudioSessionStatus
  completedSession :: "completed_session option"

text \<open>
  The \<^verbatim>\<open>useRef\<close> cells (lines 231-250). \<^verbatim>\<open>audioSourcesRef\<close> is a
  \<^verbatim>\<open>Set\<close>: the list of its elements in insertion order, without repetition.
\<close>

record ref_cells =
  timerIntervalRef :: "nat option"
  audioSessionStatusRef :: AudioSessionStatus
  sessionPromiseRef :: "nat option"
  inputAudioContextRef :: "nat option"
  outputAudioContextRef :: "nat option"
  mediaStreamRef :: "nat option"
  scriptProcessorRef :: "nat option"
  mediaStreamSourceRef :: "nat option"
  nextAudioStartTimeRef :: real
  audioSourcesRef :: "nat list"
  currentInputTranscriptionRef :: string
  currentOutputTranscriptionRef :: string
  lastMessageRoleRef :: "msg_role option"

text \<open>
  A pending \<^verbatim>\<open>setTimeout\<close> of the playback-status guard (lines 464-468): the output
  clock when it was armed, its delay, and the \<^verbatim>\<open>scheduledEndTime\<close> its closure holds.
\<close>

record timer =
  armed_at :: real
  delay_ms :: real
  scheduledEndTime :: real

text \<open>
  What the browser and the SDK hold behind the handles: which microphone streams have a
  live track, which audio contexts are not closed, which live connections have not been
  closed, which nodes of the capture graph are connected, on which buffer sources
  \<^verbatim>\<open>start\<close> and \<^verbatim>\<open>stop\<close> were called, what was scheduled on the output
  (source, start time, duration), the pending timers, the running intervals, what was handed
  to \<^verbatim>\<open>sendRealtimeInput\<close> (session, data), and whether speech synthesis is speaking.
\<close>

record browser =
  next_handle :: nat
  live_streams :: "nat set"
  open_contexts :: "nat set"
  open_sessions :: "nat set"
  connected_nodes :: "nat set"
  started_sources :: "nat set"
  stopped_sources :: "nat set"
  playback :: "(nat \<times> real \<times> real) list"
  timers :: "timer list"
  intervals :: "nat set"
  transmitted :: "(nat \<times> js_binary_string) list"
  synth_speaking :: bool

text \<open>
  What \<^verbatim>\<open>setMessages\<close> is called with: a value (\<^verbatim>\<open>setMessages([])\<close>, line 305), or
  the updater function of \<^verbatim>\<open>onmessage\<close> for the transcript of a role (lines 415-423
  and 429-437). React does not run an updater at the call: it puts it in the queue of the
  cell and runs it at the next render.
\<close>

datatype messages_update = Value "ChatMessage list" | Transcript msg_role

text \<open>
  The component: its rendered state, its refs, what the browser holds, and the updates of
  \<^verbatim>\<open>messages\<close> that wait for the next render.
\<close>

record component =
  ui :: ui_state
  refs :: ref_cells
  env :: browser
  pending :: "messages_update list"

text \<open>The component as mounted: the initial values of its cells, nothing live.\<close>

definition mounted :: component where
  "mounted =
     \<lparr>ui = \<lparr>sessionState = SS_idle, isLoading = False, error = None, modalConfig = None,
            isAudioSessionActive = False, chatSession = None, messages = [],
            isSpeaking = False, questions = [], answers = [], feedback = None,
            timeLeft = None, audioSessionStatus = idle, completedSession = None\<rparr>,
      refs = \<lparr>timerIntervalRef = None, audioSessionStatusRef = idle,
              sessionPromiseRef = None, inputAudioContextRef = None,
              outputAudioContextRef = None, mediaStreamRef = None,
              scriptProcessorRef = None, mediaStreamSourceRef = None,
              nextAudioStartTimeRef = 0, audioSourcesRef = [],
              currentInputTranscriptionRef = [], currentOutputTranscriptionRef = [],
              lastMessageRoleRef = None\<rparr>,
      env = \<lparr>next_handle = 0, live_streams = {}, open_contexts = {}, open_sessions = {},
             connected_nodes = {}, started_sources = {}, stopped_sources = {},
             playback = [], timers = [], intervals = {}, transmitted = [],
             synth_speaking = False\<rparr>,
      pending = []\<rparr>"

subsection \<open>Statements\<close>

text \<open>
  A statement takes the component to its next state, or throws: \<open>Inl (e, c)\<close> is the
  exception \<open>e\<close> raised in state \<open>c\<close> (what was written before the throw stays written).
  \<open>seq\<close> runs statements in order and stops at the first throw.
\<close>

type_synonym stmt = "component \<Rightarrow> (error \<times> component) + component"

definition exec :: "(component \<Rightarrow> component) \<Rightarrow> stmt" where
  "exec f c = Inr (f c)"

fun seq :: "stmt list \<Rightarrow> stmt" where
  "seq [] c = Inr c"
| "seq (s # ss) c = (case s c of Inl ec \<Rightarrow> Inl ec | Inr c' \<Rightarrow> seq ss c')"

text \<open>
  The state setters. A setter's value is visible to the next render; the code after it in
  the same handler still reads the values of the render that created the handler, which
  the handlers below take as their argument \<open>snap\<close>. \<^verbatim>\<open>setMessages\<close> is the one
  setter that is called with a function: its updates are queued in call order and applied
  by \<open>render\<close> below.
\<close>

definition setSessionState :: "SessionState \<Rightarrow> component \<Rightarrow> component" where
  "setSessionState v c = c\<lparr>ui := (ui c)\<lparr>sessionState := v\<rparr>\<rparr>"

definition setIsLoading :: "bool \<Rightarrow> component \<Rightarrow> component" where
  "setIsLoading v c = c\<lparr>ui := (ui c)\<lparr>isLoading := v\<rparr>\<rparr>"

definition setError :: "string option \<Rightarrow> component \<Rightarrow> component" where
  "setError v c = c\<lparr>ui := (ui c)\<lparr>error := v\<rparr>\<rparr>"

definition setIsAudioSessionActive :: "bool \<Rightarrow> component \<Rightarrow> component" where
  "setIsAudioSessionActive v c = c\<lparr>ui := (ui c)\<lparr>isAudioSessionActive := v\<rparr>\<rparr>"

definition setChatSession :: "nat option \<Rightarrow> component \<Rightarrow> component" where
  "setChatSession v c = c\<lparr>ui := (ui c)\<lparr>chatSession := v\<rparr>\<rparr>"

definition setMessages :: "messages_update \<Rightarrow> component \<Rightarrow> component" where
  "setMessages u c = c\<lparr>pending := pending c @ [u]\<rparr>"

definition setIsSpeaking :: "bool \<Rightarrow> component \<Rightarrow> component" where
  "setIsSpeaking v c = c\<lparr>ui := (ui c)\<lparr>isSpeaking := v\<rparr>\<rparr>"

definition setQuestions :: "string list \<Rightarrow> component \<Rightarrow> component" where
  "setQuestions v c = c\<lparr>ui := (ui c)\<lparr>questions := v\<rparr>\<rparr>"

definition setAnswers :: "string list \<Rightarrow> component \<Rightarrow> component" where
  "setAnswers v c = c\<lparr>ui := (ui c)\<lparr>answers := v\<rparr>\<rparr>"

definition setFeedback :: "string option \<Rightarrow> component \<Rightarrow> component" where
  "setFeedback v c = c\<lparr>ui := (ui c)\<lparr>feedback := v\<rparr>\<rparr>"

definition setTimeLeft :: "nat option \<Rightarrow> component \<Rightarrow> component" where
  "setTimeLeft v c = c\<lparr>ui := (ui c)\<lparr>timeLeft := v\<rparr>\<rparr>"

definition setAudioSessionStatus :: "AudioSessionStatus \<Rightarrow> component \<Rightarrow> component" where
  "setAudioSessionStatus v c = c\<lparr>ui := (ui c)\<lparr>audioSessionStatus := v\<rparr>\<rparr>"

definition setCompletedSession :: "completed_session option \<Rightarrow> component \<Rightarrow> component" where
  "setCompletedSession v c = c\<lparr>ui := (ui c)\<lparr>completedSession := v\<rparr>\<rparr>"

text \<open>
  The effect of lines 236-238, run after each render: the ref that the capture callback
  reads follows the status.
\<close>

definition sync_status_ref :: "component \<Rightarrow> component" where
  "sync_status_ref c = c\<lparr>refs := (refs c)\<lparr>audioSessionStatusRef := audioSessionStatus (ui c)\<rparr>\<rparr>"

subsection \<open>Operations of the browser and of the SDK\<close>

text \<open>\<open>on_ref r f\<close> is \<^verbatim>\<open>r.current?.f()\<close>: nothing on \<^verbatim>\<open>null\<close>.\<close>

definition on_ref :: "nat option \<Rightarrow> (nat \<Rightarrow> component \<Rightarrow> component) \<Rightarrow> component \<Rightarrow> component" where
  "on_ref r f c = (case r of None \<Rightarrow> c | Some h \<Rightarrow> f h c)"

definition session_close :: "nat \<Rightarrow> component \<Rightarrow> component" where
  \<comment> \<open>\<^verbatim>\<open>.then(session => session.close()).catch(console.error)\<close>\<close>
  "session_close h c = c\<lparr>env := (env c)\<lparr>open_sessions := open_sessions (env c) - {h}\<rparr>\<rparr>"

definition stop_tracks :: "nat \<Rightarrow> component \<Rightarrow> component" where
  \<comment> \<open>\<^verbatim>\<open>.getTracks().forEach(track => track.stop())\<close>\<close>
  "stop_tracks h c = c\<lparr>env := (env c)\<lparr>live_streams := live_streams (env c) - {h}\<rparr>\<rparr>"

definition disconnect :: "nat \<Rightarrow> component \<Rightarrow> component" where
  "disconnect h c = c\<lparr>env := (env c)\<lparr>connected_nodes := connected_nodes (env c) - {h}\<rparr>\<rparr>"

definition close_context :: "nat \<Rightarrow> component \<Rightarrow> component" where
  \<comment> \<open>\<^verbatim>\<open>if (ctx.state !== 'closed') ctx.close().catch(console.error)\<close>\<close>
  "close_context h c =
     (if h \<in> open_contexts (env c)
      then c\<lparr>env := (env c)\<lparr>open_contexts := open_contexts (env c) - {h}\<rparr>\<rparr> else c)"

definition source_stop :: "nat \<Rightarrow> stmt" where
  \<comment> \<open>\<^verbatim>\<open>source.stop()\<close> throws InvalidStateError unless \<^verbatim>\<open>start\<close> was called\<close>
  "source_stop h c =
     (if h \<in> started_sources (env c)
      then Inr (c\<lparr>env := (env c)\<lparr>stopped_sources := insert h (stopped_sources (env c))\<rparr>\<rparr>)
      else Inl (InvalidStateError, c))"

fun stop_sources :: "nat list \<Rightarrow> stmt" where
  \<comment> \<open>\<^verbatim>\<open>forEach(source => source.stop())\<close>\<close>
  "stop_sources [] c = Inr c"
| "stop_sources (h # hs) c =
     (case source_stop h c of Inl ec \<Rightarrow> Inl ec | Inr c' \<Rightarrow> stop_sources hs c')"

definition synth_cancel :: "component \<Rightarrow> component" where
  "synth_cancel c = c\<lparr>env := (env c)\<lparr>synth_speaking := False\<rparr>\<rparr>"

definition clear_interval :: "component \<Rightarrow> component" where
  \<comment> \<open>\<^verbatim>\<open>if (timerIntervalRef.current) { clearInterval(...); timerIntervalRef.current = null; }\<close>\<close>
  "clear_interval c =
     (case timerIntervalRef (refs c) of None \<Rightarrow> c
      | Some t \<Rightarrow> c\<lparr>env := (env c)\<lparr>intervals := intervals (env c) - {t}\<rparr>,
                    refs := (refs c)\<lparr>timerIntervalRef := None\<rparr>\<rparr>)"

definition fresh :: "component \<Rightarrow> nat \<times> component" where
  \<comment> \<open>a new object: its handle, and the component with the handle taken\<close>
  "fresh c = (next_handle (env c), c\<lparr>env := (env c)\<lparr>next_handle := Suc (next_handle (env c))\<rparr>\<rparr>)"

subsection \<open>Teardown: cleanupAudio, resetToIdle, handleEndSession\<close>

text \<open>\<^verbatim>\<open>cleanupAudio\<close>, lines 256-281, statement by statement.\<close>

definition cleanupAudio :: stmt where
  "cleanupAudio =
     seq [
       exec (\<lambda>c. on_ref (sessionPromiseRef (refs c)) session_close c),
       exec (\<lambda>c. c\<lparr>refs := (refs c)\<lparr>sessionPromiseRef := None\<rparr>\<rparr>),
       exec (\<lambda>c. on_ref (mediaStreamRef (refs c)) stop_tracks c),
       exec (\<lambda>c. c\<lparr>refs := (refs c)\<lparr>mediaStreamRef := None\<rparr>\<rparr>),
       exec (\<lambda>c. on_ref (scriptProcessorRef (refs c)) disconnect c),
       exec (\<lambda>c. c\<lparr>refs := (refs c)\<lparr>scriptProcessorRef := None\<rparr>\<rparr>),
       exec (\<lambda>c. on_ref (mediaStreamSourceRef (refs c)) disconnect c),
       exec (\<lambda>c. c\<lparr>refs := (refs c)\<lparr>mediaStreamSourceRef := None\<rparr>\<rparr>),
       exec (\<lambda>c. on_ref (inputAudioContextRef (refs c)) close_context c),
       exec (\<lambda>c. c\<lparr>refs := (refs c)\<lparr>inputAudioContextRef := None\<rparr>\<rparr>),
       (\<lambda>c. stop_sources (audioSourcesRef (refs c)) c),
       exec (\<lambda>c. c\<lparr>refs := (refs c)\<lparr>audioSourcesRef := []\<rparr>\<rparr>),
       exec (\<lambda>c. on_ref (outputAudioContextRef (refs c)) close_context c),
       exec (\<lambda>c. c\<lparr>refs := (refs c)\<lparr>outputAudioContextRef := None\<rparr>\<rparr>),
       exec synth_cancel,
       exec (setIsSpeaking False)]"

text \<open>\<^verbatim>\<open>resetToIdle\<close>, lines 302-325.\<close>

definition resetToIdle :: stmt where
  "resetToIdle =
     seq [
       exec (setSessionState SS_idle),
       exec (setChatSession None),
       exec (setMessages (Value [])),
       exec (setQuestions []),
       exec (setAnswers []),
       exec (setFeedback None),
       exec (setError None),
       exec clear_interval,
       exec (setTimeLeft None),
       exec (setCompletedSession None),
       exec (setAudioSessionStatus idle),
       cleanupAudio,
       exec (setIsAudioSessionActive False),
       exec synth_cancel,
       exec (setIsSpeaking False)]"

text \<open>
  \<^verbatim>\<open>handleEndSession\<close>, lines 530-545. It reads \<^verbatim>\<open>sessionState\<close>,
  \<^verbatim>\<open>messages\<close>, \<^verbatim>\<open>isAudioSessionActive\<close> and \<^verbatim>\<open>modalConfig\<close> of the render
  that created it (\<open>snap\<close>); \<^verbatim>\<open>modalConfig!.type\<close> throws TypeError on
  \<^verbatim>\<open>null\<close>.
\<close>

definition handleEndSession :: "ui_state \<Rightarrow> stmt" where
  "handleEndSession snap =
     seq [
       exec synth_cancel,
       exec (setIsSpeaking False),
       exec clear_interval,
       cleanupAudio,
       (\<lambda>c. if sessionState snap = SS_chat_active \<and>
                length (messages snap) > (if isAudioSessionActive snap then 0 else 1)
             then (case modalConfig snap of
                     None \<Rightarrow> Inl (TypeError, c)
                   | Some t \<Rightarrow>
                       seq [
                         exec (setCompletedSession
                           (Some \<lparr>cs_messages = messages snap, cs_type = t,
                                  cs_isAudio = isAudioSessionActive snap\<rparr>)),
                         exec (setSessionState SS_session_completed)] c)
             else resetToIdle c)]"

subsection \<open>Starting a live audio session\<close>

text \<open>
  \<^verbatim>\<open>startLiveAudioSession\<close>, lines 364-485. The function is asynchronous: the part
  before \<^verbatim>\<open>await getUserMedia\<close> runs at the click, the rest when the promise
  settles. \<open>mic\<close> tells whether the promise resolves (access granted) or rejects. On
  access the stream, the two audio contexts and the connection are new objects. The
  \<^verbatim>\<open>catch\<close> block calls the \<^verbatim>\<open>handleEndSession\<close> of the render in which the
  function was created.
\<close>

definition startLiveAudioSession_begin :: stmt where
  "startLiveAudioSession_begin =
     seq [
       exec (setIsAudioSessionActive True),
       exec (setSessionState SS_chat_active),
       exec (setIsLoading True),
       exec (setAudioSessionStatus connecting)]"

definition acquire_stream :: "component \<Rightarrow> component" where
  \<comment> \<open>\<^verbatim>\<open>mediaStreamRef.current = stream\<close>, the stream of \<^verbatim>\<open>getUserMedia\<close>\<close>
  "acquire_stream c =
     (let (h, c') = fresh c in
      c'\<lparr>env := (env c')\<lparr>live_streams := insert h (live_streams (env c'))\<rparr>,
         refs := (refs c')\<lparr>mediaStreamRef := Some h\<rparr>\<rparr>)"

definition new_input_context :: "component \<Rightarrow> component" where
  "new_input_context c =
     (let (h, c') = fresh c in
      c'\<lparr>env := (env c')\<lparr>open_contexts := insert h (open_contexts (env c'))\<rparr>,
         refs := (refs c')\<lparr>inputAudioContextRef := Some h\<rparr>\<rparr>)"

definition new_output_context :: "component \<Rightarrow> component" where
  "new_output_context c =
     (let (h, c') = fresh c in
      c'\<lparr>env := (env c')\<lparr>open_contexts := insert h (open_contexts (env c'))\<rparr>,
         refs := (refs c')\<lparr>outputAudioContextRef := Some h\<rparr>\<rparr>)"

definition live_connect :: "component \<Rightarrow> component" where
  \<comment> \<open>\<^verbatim>\<open>sessionPromiseRef.current = ai.live.connect(...)\<close>\<close>
  "live_connect c =
     (let (h, c') = fresh c in
      c'\<lparr>env := (env c')\<lparr>open_sessions := insert h (open_sessions (env c'))\<rparr>,
         refs := (refs c')\<lparr>sessionPromiseRef := Some h\<rparr>\<rparr>)"

definition startLiveAudioSession_resume :: "ui_state \<Rightarrow> bool \<Rightarrow> stmt" where
  "startLiveAudioSession_resume snap mic =
     (if mic then
        seq [
          exec acquire_stream,
          exec new_input_context,
          exec new_output_context,
          exec live_connect]
      else
        seq [
          exec (setError
            (Some ''Could not access microphone. Please grant permission and try again.'')),
          handleEndSession snap])"

definition startLiveAudioSession :: "ui_state \<Rightarrow> bool \<Rightarrow> stmt" where
  "startLiveAudioSession snap mic =
     seq [startLiveAudioSession_begin, startLiveAudioSession_resume snap mic]"

text \<open>
  The button that starts the audio session (lines 733, 760, 771-790) is rendered in the
  chat view only while \<^verbatim>\<open>isAudioSessionActive\<close> is false, and is disabled while
  loading; its handler returns at once without a \<^verbatim>\<open>modalConfig\<close>.
\<close>

definition audio_button_enabled :: "ui_state \<Rightarrow> bool" where
  "audio_button_enabled u =
     (sessionState u = SS_chat_active \<and> \<not> isAudioSessionActive u \<and> \<not> isLoading u)"


subsection \<open>The callbacks of the connection\<close>

text \<open>
  \<^verbatim>\<open>onopen\<close>, lines 388-410. The source node and the processor are new objects,
  connected to each other and to the destination.
\<close>

definition wire_capture :: "component \<Rightarrow> component" where
  "wire_capture c =
     (let (source, c1) = fresh c;
          (processor, c2) = fresh c1 in
      c2\<lparr>refs := (refs c2)\<lparr>mediaStreamSourceRef := Some source,
                             scriptProcessorRef := Some processor\<rparr>,
         env := (env c2)\<lparr>connected_nodes :=
                  insert processor (insert source (connected_nodes (env c2)))\<rparr>\<rparr>)"

definition onopen :: stmt where
  "onopen =
     seq [
       exec (setIsLoading False),
       exec (setAudioSessionStatus waiting_for_ai),
       exec (\<lambda>c. if inputAudioContextRef (refs c) = None \<or> mediaStreamRef (refs c) = None
                  then c else wire_capture c)]"

text \<open>\<^verbatim>\<open>processor.onaudioprocess\<close>, lines 398-407.\<close>

definition onaudioprocess :: "real list \<Rightarrow> stmt" where
  "onaudioprocess inputData c =
     (if audioSessionStatusRef (refs c) \<noteq> listening then Inr c
      else (case createBlob inputData of
              Inl e \<Rightarrow> Inl (e, c)
            | Inr pcmBlob \<Rightarrow>
                (case sessionPromiseRef (refs c) of
                   None \<Rightarrow> Inr c
                 | Some session \<Rightarrow>
                     Inr (c\<lparr>env := (env c)\<lparr>transmitted :=
                            transmitted (env c) @ [(session, pcmBlob)]\<rparr>\<rparr>))))"

text \<open>
  A message of the server, as far as \<^verbatim>\<open>onmessage\<close> reads it: the text of
  \<^verbatim>\<open>serverContent.inputTranscription\<close> and of \<^verbatim>\<open>outputTranscription\<close> when
  present, \<^verbatim>\<open>turnComplete\<close>, and \<^verbatim>\<open>modelTurn.parts[0].inlineData.data\<close>.
\<close>

record LiveServerMessage =
  inputTranscription :: "string option"
  outputTranscription :: "string option"
  turnComplete :: bool
  inlineData :: "js_binary_string option"

text \<open>
  The updater passed to \<^verbatim>\<open>setMessages\<close> (lines 415-423 and 429-437) for the role
  \<open>r\<close>, applied to the previous list \<open>prev\<close>. It reads \<^verbatim>\<open>lastMessageRoleRef\<close> and
  the transcription buffer of its role when it runs, that is in the refs \<open>rc\<close> of the
  render. Writing \<^verbatim>\<open>.content\<close> of the last element of an empty array throws
  TypeError. The role of the element it overwrites stays as it was.
\<close>

definition update_messages :: "ref_cells \<Rightarrow> msg_role \<Rightarrow> ChatMessage list \<Rightarrow> error + ChatMessage list" where
  "update_messages rc r prev =
     (let t = (case r of user \<Rightarrow> currentInputTranscriptionRef rc
                       | model \<Rightarrow> currentOutputTranscriptionRef rc) in
      if lastMessageRoleRef rc \<noteq> Some r then Inr (prev @ [\<lparr>role = r, content = t\<rparr>])
      else if prev = [] then Inl TypeError
      else Inr (prev[length prev - 1 := (last prev)\<lparr>content := t\<rparr>]))"

text \<open>The transcription parts of \<^verbatim>\<open>onmessage\<close>, lines 412-443.\<close>

definition on_inputTranscription :: "LiveServerMessage \<Rightarrow> stmt" where
  "on_inputTranscription message =
     (case inputTranscription message of
        None \<Rightarrow> seq []
      | Some fragment \<Rightarrow>
          seq [
            exec (\<lambda>c. c\<lparr>refs := (refs c)\<lparr>currentInputTranscriptionRef :=
                         currentInputTranscriptionRef (refs c) @ fragment\<rparr>\<rparr>),
            exec (setMessages (Transcript user)),
            exec (\<lambda>c. c\<lparr>refs := (refs c)\<lparr>lastMessageRoleRef := Some user\<rparr>\<rparr>)])"

definition on_outputTranscription :: "LiveServerMessage \<Rightarrow> stmt" where
  "on_outputTranscription message =
     (case outputTranscription message of
        None \<Rightarrow> seq []
      | Some fragment \<Rightarrow>
          seq [
            exec (\<lambda>c. c\<lparr>refs := (refs c)\<lparr>currentOutputTranscriptionRef :=
                         currentOutputTranscriptionRef (refs c) @ fragment\<rparr>\<rparr>),
            exec (setMessages (Transcript model)),
            exec (\<lambda>c. c\<lparr>refs := (refs c)\<lparr>lastMessageRoleRef := Some model\<rparr>\<rparr>)])"

definition on_turnComplete :: "LiveServerMessage \<Rightarrow> stmt" where
  "on_turnComplete message =
     (if turnComplete message
      then exec (\<lambda>c. c\<lparr>refs := (refs c)\<lparr>currentInputTranscriptionRef := [],
                                         currentOutputTranscriptionRef := []\<rparr>\<rparr>)
      else seq [])"

text \<open>
  The audio of a message, lines 445-469, skipped when \<^verbatim>\<open>base64Audio\<close> is missing
  or empty (falsy) or the output context is \<^verbatim>\<open>null\<close>. \<open>now\<close> is
  \<^verbatim>\<open>outputCtx.currentTime\<close>; the handler reads it twice in one turn of the event
  loop, during which the clock of the context does not advance.
\<close>

definition decode_inline :: "js_binary_string \<Rightarrow> error + AudioBuffer" where
  \<comment> \<open>\<^verbatim>\<open>decodeAudioData(decode(base64Audio), outputCtx, 24000, 1)\<close>\<close>
  "decode_inline base64Audio =
     (case decode base64Audio of Inl e \<Rightarrow> Inl e | Inr data \<Rightarrow> decodeAudioData data 24000)"

definition schedule_buffer :: "real \<Rightarrow> AudioBuffer \<Rightarrow> component \<Rightarrow> component" where
  \<comment> \<open>lines 451-468: the source is a new object\<close>
  "schedule_buffer now audioBuffer c =
     (let (source, c1) = fresh c;
          scheduledStartTime = nextAudioStartTimeRef (refs c1);
          scheduledEndTime = scheduledStartTime + duration audioBuffer;
          timeUntilEndMs = (scheduledEndTime - now) * 1000 in
      c1\<lparr>env := (env c1)\<lparr>
              started_sources := insert source (started_sources (env c1)),
              playback := playback (env c1) @ [(source, scheduledStartTime, duration audioBuffer)],
              timers := timers (env c1) @
                [\<lparr>armed_at = now,
                  delay_ms = (if timeUntilEndMs > 0 then timeUntilEndMs else 0),
                  scheduledEndTime = scheduledEndTime\<rparr>]\<rparr>,
         refs := (refs c1)\<lparr>
              nextAudioStartTimeRef := scheduledEndTime,
              audioSourcesRef := audioSourcesRef (refs c1) @ [source]\<rparr>\<rparr>)"

definition on_audio :: "real \<Rightarrow> LiveServerMessage \<Rightarrow> stmt" where
  "on_audio now message c =
     (case inlineData message of
        None \<Rightarrow> Inr c
      | Some base64Audio \<Rightarrow>
          if base64Audio = [] \<or> outputAudioContextRef (refs c) = None then Inr c
          else
            seq [
              exec (setAudioSessionStatus ai_speaking),
              exec (\<lambda>c. c\<lparr>refs := (refs c)\<lparr>nextAudioStartTimeRef :=
                           max (nextAudioStartTimeRef (refs c)) now\<rparr>\<rparr>),
              (\<lambda>c. case decode_inline base64Audio of
                      Inl e \<Rightarrow> Inl (e, c)
                    | Inr audioBuffer \<Rightarrow> Inr (schedule_buffer now audioBuffer c))] c)"

text \<open>\<^verbatim>\<open>onmessage\<close>, lines 411-470.\<close>

definition onmessage :: "real \<Rightarrow> LiveServerMessage \<Rightarrow> stmt" where
  "onmessage now message =
     seq [
       on_inputTranscription message,
       on_outputTranscription message,
       on_turnComplete message,
       on_audio now message]"

text \<open>
  The listener of a source's \<^verbatim>\<open>ended\<close> event (line 454) removes the source from the
  set.
\<close>

definition on_ended :: "nat \<Rightarrow> component \<Rightarrow> component" where
  "on_ended source c = c\<lparr>refs := (refs c)\<lparr>audioSourcesRef := removeAll source (audioSourcesRef (refs c))\<rparr>\<rparr>"

text \<open>
  The callback of the playback-status timer, lines 465-467, for the
  \<^verbatim>\<open>scheduledEndTime\<close> it holds.
\<close>

definition timer_callback :: "real \<Rightarrow> component \<Rightarrow> component" where
  "timer_callback end_time c =
     (if nextAudioStartTimeRef (refs c) \<le> end_time
      then setAudioSessionStatus listening c else c)"

text \<open>
  The pending timer number \<open>k\<close> fires: it leaves the list of pending timers and its
  callback runs. \<open>timer_due\<close> is the promise of \<^verbatim>\<open>setTimeout\<close>, read on the output
  clock: the timer does not fire before its delay has passed.
\<close>

definition timer_due :: "real \<Rightarrow> timer \<Rightarrow> bool" where
  "timer_due now t = (armed_at t + delay_ms t / 1000 \<le> now)"

definition timer_fires :: "nat \<Rightarrow> component \<Rightarrow> component" where
  "timer_fires k c =
     (if k < length (timers (env c))
      then timer_callback (scheduledEndTime (timers (env c) ! k))
             (c\<lparr>env := (env c)\<lparr>timers := take k (timers (env c)) @ drop (Suc k) (timers (env c))\<rparr>\<rparr>)
      else c)"

text \<open>\<^verbatim>\<open>onerror\<close>, lines 471-475; like the \<^verbatim>\<open>catch\<close> block it calls the
  \<^verbatim>\<open>handleEndSession\<close> of the render in which the session was started.\<close>

definition onerror :: "ui_state \<Rightarrow> stmt" where
  "onerror snap =
     seq [
       exec (setError (Some ''An audio connection error occurred. Please try again.'')),
       handleEndSession snap]"

subsection \<open>The event loop\<close>

text \<open>
  The handlers run one at a time, each to its end (or to its throw); React renders after
  a handler (also after one that threw: what it queued stays queued) and the effect of
  lines 236-238 copies the status into its ref. An event is
  one handler invocation with what the environment supplies to it: the outcome of
  \<^verbatim>\<open>getUserMedia\<close>, the message, the capture block, the reading of the output
  clock. The click on the audio button runs \<^verbatim>\<open>startLiveAudioSession\<close> up to its
  \<^verbatim>\<open>await\<close>; \<open>MicSettled\<close> runs the rest, with the render the function was created in.
  \<open>ClickEnd\<close> is the End Session button, \<open>Reset\<close> is \<^verbatim>\<open>resetToIdle\<close> (the Discard
  button, and the cleanup at unmount). A timer fires only when it is pending and due.
\<close>

datatype event =
    ClickAudio
  | MicSettled ui_state bool
  | Open
  | Message real LiveServerMessage
  | AudioProcess "real list"
  | Ended nat
  | TimerFires real nat
  | ClickEnd
  | ConnError ui_state
  | Reset

definition state_of :: "(error \<times> component) + component \<Rightarrow> component" where
  "state_of r = (case r of Inl (e, c) \<Rightarrow> c | Inr c \<Rightarrow> c)"

fun handler :: "event \<Rightarrow> stmt" where
  "handler ClickAudio c =
     (if audio_button_enabled (ui c) \<and> modalConfig (ui c) \<noteq> None
      then startLiveAudioSession_begin c else Inr c)"
| "handler (MicSettled snap mic) c = startLiveAudioSession_resume snap mic c"
| "handler Open c = onopen c"
| "handler (Message now message) c = onmessage now message c"
| "handler (AudioProcess inputData) c = onaudioprocess inputData c"
| "handler (Ended source) c = Inr (on_ended source c)"
| "handler (TimerFires now k) c =
     (if k < length (timers (env c)) \<and> timer_due now (timers (env c) ! k)
      then Inr (timer_fires k c) else Inr c)"
| "handler ClickEnd c = handleEndSession (ui c) c"
| "handler (ConnError snap) c = onerror snap c"
| "handler Reset c = resetToIdle c"

text \<open>
  The render after a handler: the queued updates of \<^verbatim>\<open>messages\<close> are applied in call
  order to the rendered list, the updaters reading the refs as the handler left them. An
  updater that throws makes the render throw; the error boundary of \<^verbatim>\<open>App.tsx\<close> then
  takes the component off the page. The model does not follow the transcript further: the
  list stays as rendered and the queue is dropped.
\<close>

fun apply_update :: "ref_cells \<Rightarrow> messages_update \<Rightarrow> ChatMessage list \<Rightarrow> error + ChatMessage list" where
  "apply_update rc (Value v) prev = Inr v"
| "apply_update rc (Transcript r) prev = update_messages rc r prev"

fun flush :: "ref_cells \<Rightarrow> messages_update list \<Rightarrow> ChatMessage list \<Rightarrow> error + ChatMessage list" where
  "flush rc [] prev = Inr prev"
| "flush rc (u # us) prev =
     (case apply_update rc u prev of Inl e \<Rightarrow> Inl e | Inr ms \<Rightarrow> flush rc us ms)"

definition render :: stmt where
  "render c =
     (case flush (refs c) (pending c) (messages (ui c)) of
        Inl e \<Rightarrow> Inl (e, c\<lparr>pending := []\<rparr>)
      | Inr ms \<Rightarrow> Inr (c\<lparr>ui := (ui c)\<lparr>messages := ms\<rparr>, pending := []\<rparr>))"

definition dispatch :: "component \<Rightarrow> event \<Rightarrow> component" where
  "dispatch c e = sync_status_ref (state_of (render (state_of (handler e c))))"

definition run :: "event list \<Rightarrow> component \<Rightarrow> component" where
  "run es c = foldl dispatch c es"

text \<open>
  A text interview in progress, as \<^verbatim>\<open>handleCardClick\<close> and \<^verbatim>\<open>handleStartSession\<close>
  (lines 349-362 and 487-528) leave the component: a configuration chosen, the chat view
  with the model's opening message.
\<close>

definition text_chat :: component where
  "text_chat =
     mounted\<lparr>ui := (ui mounted)\<lparr>sessionState := SS_chat_active,
                                  modalConfig := Some Behavioral,
                                  chatSession := Some 0,
                                  messages := [\<lparr>role = model, content = ''Welcome.''\<rparr>]\<rparr>,
             env := (env mounted)\<lparr>next_handle := 1\<rparr>\<rparr>"

subsection \<open>Functions used in the proofs only\<close>

text \<open>The sextets of a byte list without the alphabet and without the padding.\<close>

fun b64_nopad :: "nat list \<Rightarrow> nat list" where
  "b64_nopad (a # b # c # rest) =
     (a div 4) # ((a mod 4) * 16 + b div 16) # ((b mod 16) * 4 + c div 64) # (c mod 64) #
     b64_nopad rest"
| "b64_nopad [a, b] = [a div 4, (a mod 4) * 16 + b div 16, (b mod 16) * 4]"
| "b64_nopad [a] = [a div 4, (a mod 4) * 16]"
| "b64_nopad [] = []"

fun b64_pad :: "nat list \<Rightarrow> nat list" where
  "b64_pad (a # b # c # rest) = b64_pad rest"
| "b64_pad [a, b] = [61]"
| "b64_pad [a] = [61, 61]"
| "b64_pad [] = []"

text \<open>
  The state \<^verbatim>\<open>cleanupAudio\<close> leaves, and the property that every resource reference
  is \<^verbatim>\<open>null\<close> and no buffer source is in flight.
\<close>

definition torn_down :: "component \<Rightarrow> component" where
  "torn_down c =
     c\<lparr>refs := (refs c)\<lparr>sessionPromiseRef := None, mediaStreamRef := None,
                          scriptProcessorRef := None, mediaStreamSourceRef := None,
                          inputAudioContextRef := None, outputAudioContextRef := None,
                          audioSourcesRef := []\<rparr>,
       env := (env c)\<lparr>
          open_sessions := open_sessions (env c) - set_option (sessionPromiseRef (refs c)),
          live_streams := live_streams (env c) - set_option (mediaStreamRef (refs c)),
          connected_nodes := connected_nodes (env c) - set_option (scriptProcessorRef (refs c))
             - set_option (mediaStreamSourceRef (refs c)),
          open_contexts := open_contexts (env c) - set_option (inputAudioContextRef (refs c))
             - set_option (outputAudioContextRef (refs c)),
          stopped_sources := set (audioSourcesRef (refs c)) \<union> stopped_sources (env c),
          synth_speaking := False\<rparr>,
       ui := (ui c)\<lparr>isSpeaking := False\<rparr>\<rparr>"

definition all_released :: "component \<Rightarrow> bool" where
  "all_released c =
     (sessionPromiseRef (refs c) = None \<and> mediaStreamRef (refs c) = None \<and>
      scriptProcessorRef (refs c) = None \<and> mediaStreamSourceRef (refs c) = None \<and>
      inputAudioContextRef (refs c) = None \<and> outputAudioContextRef (refs c) = None \<and>
      audioSourcesRef (refs c) = [])"

text \<open>
  The invariant of the playback schedule: every pending timer was armed to fire no earlier
  than the end time it holds, and no scheduled buffer ends after
  \<^verbatim>\<open>nextAudioStartTimeRef\<close>.
\<close>

definition timer_armed_ok :: "timer \<Rightarrow> bool" where
  "timer_armed_ok t = (scheduledEndTime t \<le> armed_at t + delay_ms t / 1000)"

definition ends_by :: "real \<Rightarrow> nat \<times> real \<times> real \<Rightarrow> bool" where
  "ends_by t p = (fst (snd p) + snd (snd p) \<le> t)"

definition playback_inv :: "component \<Rightarrow> bool" where
  "playback_inv c =
     (list_all timer_armed_ok (timers (env c)) \<and>
      list_all (ends_by (nextAudioStartTimeRef (refs c))) (playback (env c)))"

text \<open>
  Frame conditions for the invariant: what the invariant reads, a statement that leaves it
  unchanged whether it returns or throws, and a statement that keeps a property of the
  component whether it returns or throws.
\<close>

definition sched :: "component \<Rightarrow> timer list \<times> (nat \<times> real \<times> real) list \<times> real" where
  "sched c = (timers (env c), playback (env c), nextAudioStartTimeRef (refs c))"

definition keeps_sched :: "stmt \<Rightarrow> bool" where
  "keeps_sched s = (\<forall>c. sched (state_of (s c)) = sched c)"

definition preserves :: "(component \<Rightarrow> bool) \<Rightarrow> stmt \<Rightarrow> bool" where
  "preserves P s = (\<forall>c. P c \<longrightarrow> P (state_of (s c)))"

text \<open>The status is not \<^verbatim>\<open>listening\<close>.\<close>

definition quiet :: "component \<Rightarrow> bool" where
  "quiet c = (audioSessionStatus (ui c) \<noteq> listening)"

text \<open>
  A message that carries one frame of silence and nothing else: the base64 text
  \<^verbatim>\<open>AAA=\<close>, two zero bytes, 1/24000 s of audio.
\<close>

definition audio_msg :: LiveServerMessage where
  "audio_msg = \<lparr>inputTranscription = None, outputTranscription = None, turnComplete = False,
        inlineData = Some [65, 65, 65, 61]\<rparr>"

text \<open>
  Messages that carry one fragment of the user's transcript, and the turn-complete signal.
\<close>

definition user_fragment :: "string \<Rightarrow> LiveServerMessage" where
  "user_fragment t = \<lparr>inputTranscription = Some t, outputTranscription = None,
        turnComplete = False, inlineData = None\<rparr>"

definition turn_complete_msg :: LiveServerMessage where
  "turn_complete_msg = \<lparr>inputTranscription = None, outputTranscription = None,
        turnComplete = True, inlineData = None\<rparr>"





section \<open>Theorems\<close>

subsection \<open>Base64: arithmetic of one group\<close>

lemma sextet_1: "(a::nat) \<le> 255 \<Longrightarrow> a div 4 < 64"
  by simp

lemma sextet_2_last: "(a mod 4) * 16 < (64::nat)"
proof -
  have "a mod 4 \<le> 3" by simp
  then have "(a mod 4) * 16 \<le> 48" by simp
  then show ?thesis by linarith
qed

lemma sextet_2: "(b::nat) \<le> 255 \<Longrightarrow> (a mod 4) * 16 + b div 16 < 64"
proof -
  assume "b \<le> 255"
  then have "b div 16 < 16" by simp
  moreover have "a mod 4 \<le> 3" by simp
  then have "(a mod 4) * 16 \<le> 48" by simp
  ultimately show ?thesis by linarith
qed

lemma sextet_3_last: "(b mod 16) * 4 < (64::nat)"
proof -
  have "b mod 16 \<le> 15" by simp
  then have "(b mod 16) * 4 \<le> 60" by simp
  then show ?thesis by linarith
qed

lemma sextet_3: "(c::nat) \<le> 255 \<Longrightarrow> (b mod 16) * 4 + c div 64 < 64"
proof -
  assume "c \<le> 255"
  then have "c div 64 < 4" by simp
  moreover have "b mod 16 \<le> 15" by simp
  then have "(b mod 16) * 4 \<le> 60" by simp
  ultimately show ?thesis by linarith
qed

lemma byte_1: "(b::nat) \<le> 255 \<Longrightarrow> (a div 4) * 4 + ((a mod 4) * 16 + b div 16) div 16 = a"
proof -
  assume "b \<le> 255"
  then have "b div 16 < 16" by simp
  then have "((a mod 4) * 16 + b div 16) div 16 = a mod 4" by simp
  then show ?thesis by simp
qed

lemma byte_1_last: "(a div 4) * 4 + ((a mod 4) * 16) div 16 = (a::nat)"
  by simp

lemma byte_2:
  "(b::nat) \<le> 255 \<Longrightarrow> (c::nat) \<le> 255 \<Longrightarrow>
   (((a mod 4) * 16 + b div 16) mod 16) * 16 + ((b mod 16) * 4 + c div 64) div 4 = b"
proof -
  assume b: "b \<le> 255" and "c \<le> 255"
  then have "c div 64 < 4" by simp
  then have "((b mod 16) * 4 + c div 64) div 4 = b mod 16" by simp
  moreover have "((a mod 4) * 16 + b div 16) mod 16 = (b div 16) mod 16" by simp
  moreover have "b div 16 < 16" using b by simp
  ultimately show ?thesis by simp
qed

lemma byte_2_last:
  "(b::nat) \<le> 255 \<Longrightarrow>
   (((a mod 4) * 16 + b div 16) mod 16) * 16 + ((b mod 16) * 4) div 4 = b"
proof -
  assume b: "b \<le> 255"
  have "((a mod 4) * 16 + b div 16) mod 16 = (b div 16) mod 16" by simp
  moreover have "b div 16 < 16" using b by simp
  ultimately show ?thesis by simp
qed

lemma byte_3:
  "(c::nat) \<le> 255 \<Longrightarrow> (((b mod 16) * 4 + c div 64) mod 4) * 64 + c mod 64 = c"
proof -
  assume c: "c \<le> 255"
  have "((b mod 16) * 4 + c div 64) mod 4 = (c div 64) mod 4" by simp
  moreover have "c div 64 < 4" using c by simp
  ultimately show ?thesis by simp
qed

subsection \<open>Base64: the alphabet\<close>

lemma dec6_enc6: "i < 64 \<Longrightarrow> dec6 (enc6 i) = Some i"
  unfolding enc6_def dec6_def by (simp; arith)

lemma enc6_not_whitespace: "\<not> ascii_whitespace (enc6 i)"
  unfolding enc6_def ascii_whitespace_def by (simp; arith)

lemma enc6_not_pad: "enc6 i \<noteq> 61"
  unfolding enc6_def by (simp; arith)

lemma pad_not_whitespace: "\<not> ascii_whitespace 61"
  by (simp add: ascii_whitespace_def)

subsection \<open>Base64: the encoder's output\<close>

lemma b64_groups_split: "b64_groups bs = map enc6 (b64_nopad bs) @ b64_pad bs"
  by (induction bs rule: b64_groups.induct) simp_all

lemma b64_pad_cases: "b64_pad bs = [] \<or> b64_pad bs = [61] \<or> b64_pad bs = [61, 61]"
  by (induction bs rule: b64_pad.induct) simp_all

lemma b64_groups_no_whitespace:
  "list_all (\<lambda>c. \<not> ascii_whitespace c) (b64_groups bs)"
  by (induction bs rule: b64_groups.induct)
     (simp_all add: enc6_not_whitespace pad_not_whitespace)

lemma b64_groups_filter:
  "filter (\<lambda>c. \<not> ascii_whitespace c) (b64_groups bs) = b64_groups bs"
  using b64_groups_no_whitespace [of bs] by (simp add: filter_id_conv list_all_iff)

lemma b64_groups_length: "length (b64_groups bs) mod 4 = 0"
  by (induction bs rule: b64_groups.induct) simp_all

lemma b64_nopad_length: "length (b64_nopad bs) mod 4 \<noteq> 1"
  by (induction bs rule: b64_nopad.induct) simp_all

lemma b64_nopad_sextets:
  "list_all (\<lambda>c. c \<le> 255) bs \<Longrightarrow> list_all (\<lambda>v. v < 64) (b64_nopad bs)"
  by (induction bs rule: b64_nopad.induct)
     (simp_all add: sextet_1 sextet_2 sextet_3 sextet_2_last sextet_3_last del: div_less_iff_less_mult)

lemma b64_bytes_nopad:
  "list_all (\<lambda>c. c \<le> 255) bs \<Longrightarrow> b64_bytes (b64_nopad bs) = bs"
proof (induction bs rule: b64_nopad.induct)
  case (1 a b c rest)
  then have "b \<le> 255" "c \<le> 255" and rest: "b64_bytes (b64_nopad rest) = rest"
    by simp_all
  then show ?case
    by (simp only: b64_nopad.simps b64_bytes.simps byte_1 byte_2 byte_3)
next
  case (2 a b)
  then have "b \<le> 255" by simp
  then show ?case
    by (simp only: b64_nopad.simps b64_bytes.simps byte_1 byte_2_last)
next
  case (3 a)
  show ?case
    by (simp only: b64_nopad.simps b64_bytes.simps byte_1_last)
next
  case 4
  show ?case by simp
qed

lemma sextets_map_enc6:
  "list_all (\<lambda>v. v < 64) vs \<Longrightarrow> sextets (map enc6 vs) = Some vs"
  by (induction vs) (simp_all add: dec6_enc6)

lemma strip_padding_append:
  assumes body: "list_all (\<lambda>c. c \<noteq> 61) xs"
    and len: "length (xs @ p) mod 4 = 0"
    and pad: "p = [] \<or> p = [61] \<or> p = [61, 61]"
  shows "strip_padding (xs @ p) = xs"
proof -
  have last_xs: "xs \<noteq> [] \<Longrightarrow> last xs \<noteq> 61"
    using body by (simp add: list_all_iff)
  from pad consider "p = []" | "p = [61]" | "p = [61, 61]" by blast
  then show ?thesis
  proof cases
    case 1
    show ?thesis
    proof (cases "xs = []")
      case True
      with 1 show ?thesis by (simp add: strip_padding_def)
    next
      case False
      with last_xs have "last xs \<noteq> 61" by simp
      with 1 show ?thesis by (simp add: strip_padding_def)
    qed
  next
    case 2
    with len have "xs \<noteq> []" by auto
    with 2 len last_xs show ?thesis by (simp add: strip_padding_def)
  next
    case 3
    then have "butlast (xs @ p) = xs @ [61]" by (simp add: butlast_append)
    with 3 len show ?thesis by (simp add: strip_padding_def)
  qed
qed

lemma strip_padding_groups:
  "strip_padding (b64_groups bs) = map enc6 (b64_nopad bs)"
proof -
  have "list_all (\<lambda>c. c \<noteq> 61) (map enc6 (b64_nopad bs))"
    by (simp add: list_all_iff enc6_not_pad)
  moreover have "length (map enc6 (b64_nopad bs) @ b64_pad bs) mod 4 = 0"
    using b64_groups_length [of bs] by (simp only: b64_groups_split)
  ultimately show ?thesis
    using b64_pad_cases [of bs] strip_padding_append
    by (simp only: b64_groups_split)
qed

lemma atob_b64_groups:
  assumes "list_all (\<lambda>c. c \<le> 255) bs"
  shows "atob (b64_groups bs) = Inr bs"
proof -
  have "sextets (map enc6 (b64_nopad bs)) = Some (b64_nopad bs)"
    using assms by (simp add: sextets_map_enc6 b64_nopad_sextets)
  moreover have "length (map enc6 (b64_nopad bs)) mod 4 \<noteq> 1"
    using b64_nopad_length [of bs] by simp
  ultimately show ?thesis
    using assms
    by (simp add: atob_def b64_groups_filter strip_padding_groups b64_bytes_nopad)
qed

lemma unat_bytes: "list_all (\<lambda>c. c \<le> 255) (map unat (bytes :: 8 word list))"
proof -
  have "unat w \<le> 255" for w :: "8 word"
    using unsigned_less [of w, where ?'a = nat] by simp
  then show ?thesis by (simp add: list_all_iff)
qed

lemma of_nat_unat_bytes: "map of_nat (map unat bytes) = (bytes :: 8 word list)"
  by (induction bytes) simp_all

subsection \<open>C10: decode after encode is the identity\<close>

text \<open>
  C10. For every byte array \<open>b\<close>, \<^verbatim>\<open>encode(b)\<close> does not throw and returns a string on
  which \<^verbatim>\<open>decode\<close> does not throw and returns a byte array equal to \<open>b\<close>.
\<close>

theorem decode_encode:
  "\<exists>s. encode b = Inr s \<and> decode s = Inr b"
proof -
  have "encode b = Inr (b64_groups (map unat b))"
    by (simp add: encode_def btoa_def unat_bytes)
  moreover have "decode (b64_groups (map unat b)) = Inr b"
    by (simp only: decode_def atob_b64_groups unat_bytes of_nat_unat_bytes sum.case)
  ultimately show ?thesis by blast
qed

theorem decode_encode_witness:
  "encode [77, 97, 110, 0, 255] = Inr [84, 87, 70, 117, 65, 80, 56, 61] \<and>
   decode [84, 87, 70, 117, 65, 80, 56, 61] = Inr [77, 97, 110, 0, 255]"
proof -
  have e: "encode [77, 97, 110, 0, 255] = Inr [84, 87, 70, 117, 65, 80, 56, 61]"
    by (simp add: encode_def btoa_def enc6_def)
  obtain s where s: "encode [77, 97, 110, 0, 255] = Inr s"
    and d: "decode s = Inr [77, 97, 110, 0, 255]"
    using decode_encode [of "[77, 97, 110, 0, 255]"] by blast
  from e s have "s = [84, 87, 70, 117, 65, 80, 56, 61]" by simp
  with e d show ?thesis by simp
qed

subsection \<open>C9: the retry policy of withRetry\<close>

lemma withRetry_closed:
  "withRetry parse api =
     (case api 0 of
        Inr v \<Rightarrow> \<lparr>outcome = Inr v, calls = 1, delays = []\<rparr>
      | Inl e0 \<Rightarrow>
          if \<not> isRateLimitError parse e0 then \<lparr>outcome = Inl e0, calls = 1, delays = []\<rparr>
          else (case api (Suc 0) of
                  Inr v \<Rightarrow> \<lparr>outcome = Inr v, calls = 2, delays = [1000]\<rparr>
                | Inl e1 \<Rightarrow>
                    if \<not> isRateLimitError parse e1
                    then \<lparr>outcome = Inl e1, calls = 2, delays = [1000]\<rparr>
                    else (case api (Suc (Suc 0)) of
                            Inr v \<Rightarrow> \<lparr>outcome = Inr v, calls = 3, delays = [1000, 2000]\<rparr>
                          | Inl e2 \<Rightarrow>
                              \<lparr>outcome = Inl e2, calls = 3, delays = [1000, 2000]\<rparr>)))"
  by (simp add: withRetry_def MAX_RETRIES_def INITIAL_BACKOFF_MS_def split: sum.splits)

lemma upt_0_2: "[0..<2] = [0, Suc 0]"
  by (simp add: numeral_2_eq_2)

lemma less_2_cases: "(i < (2::nat)) = (i = 0 \<or> i = Suc 0)"
  by auto

text \<open>The policy, as a predicate on a run; the theorem of C9 states it unfolded.\<close>

lemma retry_policy_cases:
  fixes api :: "nat \<Rightarrow> js_value + 'a" and parse :: "string \<Rightarrow> js_value option"
  defines "P \<equiv> \<lambda>r :: 'a retry_run.
      1 \<le> calls r \<and> calls r \<le> 3 \<and>
      outcome r = api (calls r - 1) \<and>
      delays r = map (\<lambda>i. 1000 * 2 ^ i) [0 ..< calls r - 1] \<and>
      (\<forall>i < calls r - 1. \<exists>e. api i = Inl e \<and> isRateLimitError parse e) \<and>
      (\<forall>e. outcome r = Inl e \<longrightarrow> \<not> isRateLimitError parse e \<or> calls r = 3)"
  shows "P (withRetry parse api)"
proof (cases "api 0")
  case (Inr v)
  then show ?thesis by (simp add: withRetry_closed P_def)
next
  case e0: (Inl e0)
  show ?thesis
  proof (cases "isRateLimitError parse e0")
    case False
    with e0 show ?thesis by (simp add: withRetry_closed P_def)
  next
    case r0: True
    show ?thesis
    proof (cases "api (Suc 0)")
      case (Inr v)
      with e0 r0 show ?thesis by (simp add: withRetry_closed P_def)
    next
      case e1: (Inl e1)
      show ?thesis
      proof (cases "isRateLimitError parse e1")
        case False
        with e0 r0 e1 show ?thesis by (simp add: withRetry_closed P_def)
      next
        case True
        with e0 r0 e1 show ?thesis
          by (cases "api (Suc (Suc 0))")
             (simp_all add: withRetry_closed P_def upt_0_2 less_2_cases
                numeral_2_eq_2 [symmetric])
      qed
    qed
  qed
qed

lemma isRateLimitError_iff:
  "isRateLimitError parse err =
     (rate_limit_details err \<or>
      (\<exists>message. get_prop err ''message'' = JStr message \<and>
         ((\<exists>errorJson. parse message = Some errorJson \<and> rate_limit_details errorJson) \<or>
          js_includes message ''429'' \<or>
          js_includes message ''RESOURCE_EXHAUSTED'' \<or>
          js_includes (toLowerCase message) ''rate limit'')))"
  by (auto simp: isRateLimitError_def split: js_value.splits option.splits)

text \<open>
  C9. For every \<^verbatim>\<open>apiCall\<close> (every sequence of outcomes of its invocations) the run
  of \<^verbatim>\<open>withRetry\<close>
  \<^item> invokes it at least once and at most \<open>MAX_RETRIES = 3\<close> times;
  \<^item> ends with the outcome of its last invocation, unchanged: the value of a call that
    succeeded, or the error of the last call that failed;
  \<^item> has waited \<open>INITIAL_BACKOFF_MS * 2 ^ i\<close> = \<open>1000 * 2 ^ i\<close> milliseconds after
    invocation \<open>i\<close>, for each invocation but the last, and nothing else;
  \<^item> has retried only after rate-limit errors: every invocation but the last failed with
    an error that \<open>isRateLimitError\<close> accepts;
  \<^item> stops with an error only when the error is not a rate-limit error or the cap is
    reached.
  An error is a rate-limit error exactly when its \<^verbatim>\<open>error.code\<close> is 429 or its
  \<^verbatim>\<open>error.status\<close> is RESOURCE_EXHAUSTED, or its \<^verbatim>\<open>message\<close> is a string that
  parses as JSON to a value with such a code or status, or contains \<^verbatim>\<open>429\<close> or
  \<^verbatim>\<open>RESOURCE_EXHAUSTED\<close>, or contains \<^verbatim>\<open>rate limit\<close> in any letter case.
\<close>

theorem withRetry_policy:
  "(let r = withRetry parse api in
      1 \<le> calls r \<and> calls r \<le> MAX_RETRIES \<and> MAX_RETRIES = 3 \<and>
      outcome r = api (calls r - 1) \<and>
      delays r = map (\<lambda>i. INITIAL_BACKOFF_MS * 2 ^ i) [0 ..< calls r - 1] \<and>
      INITIAL_BACKOFF_MS = 1000 \<and>
      (\<forall>i < calls r - 1. \<exists>e. api i = Inl e \<and> isRateLimitError parse e) \<and>
      (\<forall>e. outcome r = Inl e \<longrightarrow> \<not> isRateLimitError parse e \<or> calls r = MAX_RETRIES)) \<and>
   (\<forall>error. isRateLimitError parse error =
      (rate_limit_details error \<or>
       (\<exists>message. get_prop error ''message'' = JStr message \<and>
          ((\<exists>errorJson. parse message = Some errorJson \<and> rate_limit_details errorJson) \<or>
           js_includes message ''429'' \<or>
           js_includes message ''RESOURCE_EXHAUSTED'' \<or>
           js_includes (toLowerCase message) ''rate limit''))))"
proof -
  have m: "MAX_RETRIES = 3"
    by (simp add: MAX_RETRIES_def)
  have b: "INITIAL_BACKOFF_MS = 1000"
    by (simp add: INITIAL_BACKOFF_MS_def)
  have policy: "1 \<le> calls (withRetry parse api) \<and> calls (withRetry parse api) \<le> 3 \<and>
      outcome (withRetry parse api) = api (calls (withRetry parse api) - 1) \<and>
      delays (withRetry parse api) =
        map (\<lambda>i. 1000 * 2 ^ i) [0 ..< calls (withRetry parse api) - 1] \<and>
      (\<forall>i < calls (withRetry parse api) - 1.
         \<exists>e. api i = Inl e \<and> isRateLimitError parse e) \<and>
      (\<forall>e. outcome (withRetry parse api) = Inl e \<longrightarrow>
         \<not> isRateLimitError parse e \<or> calls (withRetry parse api) = 3)"
    by (rule retry_policy_cases)
  show ?thesis
    unfolding Let_def m b
    using policy isRateLimitError_iff [of parse]
    by blast
qed

text \<open>
  A run that meets two rate-limit errors (a structured one, and one recognised by its
  message) and then succeeds: three invocations, delays of 1000 and 2000 milliseconds, the
  value returned unchanged.
\<close>

theorem withRetry_policy_witness:
  "isRateLimitError (\<lambda>s. None) (JObj [(''error'', JObj [(''code'', JNum 429)])]) \<and>
   isRateLimitError (\<lambda>s. None) (JObj [(''message'', JStr ''Rate limit exceeded'')]) \<and>
   withRetry (\<lambda>s. None)
     (\<lambda>n. if n = 0 then Inl (JObj [(''error'', JObj [(''code'', JNum 429)])])
          else if n = 1 then Inl (JObj [(''message'', JStr ''Rate limit exceeded'')])
          else Inr (7::nat))
   = \<lparr>outcome = Inr 7, calls = 3, delays = [1000, 2000]\<rparr>"
proof -
  have r0: "isRateLimitError (\<lambda>s. None) (JObj [(''error'', JObj [(''code'', JNum 429)])])"
    by (simp add: isRateLimitError_def rate_limit_details_def get_prop_def)
  have r1: "isRateLimitError (\<lambda>s. None) (JObj [(''message'', JStr ''Rate limit exceeded'')])"
    by code_simp
  have run: "withRetry (\<lambda>s. None)
     (\<lambda>n. if n = 0 then Inl (JObj [(''error'', JObj [(''code'', JNum 429)])])
          else if n = 1 then Inl (JObj [(''message'', JStr ''Rate limit exceeded'')])
          else Inr (7::nat))
   = \<lparr>outcome = Inr 7, calls = 3, delays = [1000, 2000]\<rparr>"
    by (simp add: withRetry_closed r0 r1)
  show ?thesis
    using
      withRetry_policy [of "\<lambda>s. None"
        "\<lambda>n. if n = 0 then Inl (JObj [(''error'', JObj [(''code'', JNum 429)])])
             else if n = 1 then Inl (JObj [(''message'', JStr ''Rate limit exceeded'')])
             else Inr (7::nat)"]
    by (intro conjI r0 r1 run)
qed

subsection \<open>Statements in sequence\<close>

lemma seq_Cons_Inr:
  "seq (s # ss) c = Inr c' \<longleftrightarrow> (\<exists>c1. s c = Inr c1 \<and> seq ss c1 = Inr c')"
  by (cases "s c") simp_all

lemma seq_Nil_Inr: "seq [] c = Inr c' \<longleftrightarrow> c' = c"
  by auto

lemma preserves_seq: "list_all (preserves P) ss \<Longrightarrow> preserves P (seq ss)"
proof (induction ss)
  case Nil
  show ?case by (simp add: preserves_def state_of_def)
next
  case (Cons s ss)
  then have s: "\<And>c. P c \<Longrightarrow> P (state_of (s c))"
    and ss: "\<And>c. P c \<Longrightarrow> P (state_of (seq ss c))"
    by (simp_all add: preserves_def)
  show ?case
    unfolding preserves_def
  proof (intro allI impI)
    fix c
    assume P: "P c"
    show "P (state_of (seq (s # ss) c))"
    proof (cases "s c")
      case (Inl ec)
      with s [OF P] show ?thesis by simp
    next
      case (Inr c1)
      with s [OF P] have "P c1" by (simp add: state_of_def)
      from ss [OF this] Inr show ?thesis by simp
    qed
  qed
qed

subsection \<open>C1: the playback schedule\<close>

lemma on_inputTranscription_frame:
  assumes "on_inputTranscription message c = Inr c'"
  shows "env c' = env c \<and>
         nextAudioStartTimeRef (refs c') = nextAudioStartTimeRef (refs c) \<and>
         outputAudioContextRef (refs c') = outputAudioContextRef (refs c) \<and>
         audioSourcesRef (refs c') = audioSourcesRef (refs c)"
  using assms
  by (auto simp: on_inputTranscription_def exec_def setMessages_def split: option.splits)

lemma on_outputTranscription_frame:
  assumes "on_outputTranscription message c = Inr c'"
  shows "env c' = env c \<and>
         nextAudioStartTimeRef (refs c') = nextAudioStartTimeRef (refs c) \<and>
         outputAudioContextRef (refs c') = outputAudioContextRef (refs c) \<and>
         audioSourcesRef (refs c') = audioSourcesRef (refs c)"
  using assms
  by (auto simp: on_outputTranscription_def exec_def setMessages_def split: option.splits)

lemma on_turnComplete_frame:
  assumes "on_turnComplete message c = Inr c'"
  shows "env c' = env c \<and>
         nextAudioStartTimeRef (refs c') = nextAudioStartTimeRef (refs c) \<and>
         outputAudioContextRef (refs c') = outputAudioContextRef (refs c) \<and>
         audioSourcesRef (refs c') = audioSourcesRef (refs c)"
  using assms by (auto simp: on_turnComplete_def exec_def split: if_splits)

lemma schedule_buffer_playback:
  "playback (env (schedule_buffer now a c)) =
     playback (env c) @ [(next_handle (env c), nextAudioStartTimeRef (refs c), duration a)]"
  by (simp add: schedule_buffer_def fresh_def Let_def)

lemma schedule_buffer_next:
  "nextAudioStartTimeRef (refs (schedule_buffer now a c)) =
     nextAudioStartTimeRef (refs c) + duration a"
  by (simp add: schedule_buffer_def fresh_def Let_def)

lemma schedule_buffer_ctx:
  "outputAudioContextRef (refs (schedule_buffer now a c)) = outputAudioContextRef (refs c)"
  by (simp add: schedule_buffer_def fresh_def Let_def)

lemma on_audio_scheduled:
  assumes "on_audio now message c = Inr c'"
    and "inlineData message = Some b" and "b \<noteq> []"
    and "outputAudioContextRef (refs c) \<noteq> None"
  shows "\<exists>audioBuffer. decode_inline b = Inr audioBuffer \<and>
           c' = schedule_buffer now audioBuffer
                  (c\<lparr>ui := (ui c)\<lparr>audioSessionStatus := ai_speaking\<rparr>,
                     refs := (refs c)\<lparr>nextAudioStartTimeRef :=
                       max (nextAudioStartTimeRef (refs c)) now\<rparr>\<rparr>)"
  using assms
  by (cases "decode_inline b")
     (auto simp: on_audio_def exec_def setAudioSessionStatus_def)

lemma onmessage_scheduled:
  assumes run: "onmessage now message c = Inr c'"
    and audio: "inlineData message = Some b" "b \<noteq> []"
    and ctx: "outputAudioContextRef (refs c) \<noteq> None"
  shows "\<exists>source audioBuffer. decode_inline b = Inr audioBuffer \<and>
           playback (env c') = playback (env c) @
             [(source, max (nextAudioStartTimeRef (refs c)) now, duration audioBuffer)] \<and>
           nextAudioStartTimeRef (refs c') =
             max (nextAudioStartTimeRef (refs c)) now + duration audioBuffer \<and>
           outputAudioContextRef (refs c') = outputAudioContextRef (refs c)"
proof -
  from run obtain c1 c2 c3 where
    s1: "on_inputTranscription message c = Inr c1" and
    s2: "on_outputTranscription message c1 = Inr c2" and
    s3: "on_turnComplete message c2 = Inr c3" and
    s4: "on_audio now message c3 = Inr c'"
    by (auto simp: onmessage_def seq_Cons_Inr seq_Nil_Inr simp del: seq.simps)
  have frame: "env c3 = env c"
    "nextAudioStartTimeRef (refs c3) = nextAudioStartTimeRef (refs c)"
    "outputAudioContextRef (refs c3) = outputAudioContextRef (refs c)"
    "audioSourcesRef (refs c3) = audioSourcesRef (refs c)"
    using on_inputTranscription_frame [OF s1] on_outputTranscription_frame [OF s2]
      on_turnComplete_frame [OF s3] by simp_all
  from on_audio_scheduled [OF s4 audio] ctx frame(3)
  obtain a where a: "decode_inline b = Inr a" and
    c': "c' = schedule_buffer now a
                  (c3\<lparr>ui := (ui c3)\<lparr>audioSessionStatus := ai_speaking\<rparr>,
                     refs := (refs c3)\<lparr>nextAudioStartTimeRef :=
                       max (nextAudioStartTimeRef (refs c3)) now\<rparr>\<rparr>)"
    by auto
  show ?thesis
    using a frame
    by (simp add: c' schedule_buffer_playback schedule_buffer_next schedule_buffer_ctx)
qed

lemma onmessage_three:
  assumes r1: "onmessage now1 m1 c0 = Inr c1"
    and r2: "onmessage now2 m2 c1 = Inr c2"
    and r3: "onmessage now3 m3 c2 = Inr c3"
    and a1: "inlineData m1 = Some b1" "b1 \<noteq> []"
    and a2: "inlineData m2 = Some b2" "b2 \<noteq> []"
    and a3: "inlineData m3 = Some b3" "b3 \<noteq> []"
    and ctx: "outputAudioContextRef (refs c0) \<noteq> None"
    and ahead2: "now2 \<le> nextAudioStartTimeRef (refs c1)"
    and ahead3: "now3 \<le> nextAudioStartTimeRef (refs c2)"
  shows "\<exists>s1 s2 s3 a1 a2 a3.
           decode_inline b1 = Inr a1 \<and> decode_inline b2 = Inr a2 \<and>
           decode_inline b3 = Inr a3 \<and>
           playback (env c3) = playback (env c0) @
             [(s1, max (nextAudioStartTimeRef (refs c0)) now1, duration a1),
              (s2, max (nextAudioStartTimeRef (refs c0)) now1 + duration a1, duration a2),
              (s3, max (nextAudioStartTimeRef (refs c0)) now1 + duration a1 + duration a2,
               duration a3)]"
proof -
  from onmessage_scheduled [OF r1 a1 ctx] obtain s1 x1 where
    d1: "decode_inline b1 = Inr x1" and
    p1: "playback (env c1) = playback (env c0) @
           [(s1, max (nextAudioStartTimeRef (refs c0)) now1, duration x1)]" and
    n1: "nextAudioStartTimeRef (refs c1) =
           max (nextAudioStartTimeRef (refs c0)) now1 + duration x1" and
    k1: "outputAudioContextRef (refs c1) \<noteq> None"
    using ctx by auto
  from onmessage_scheduled [OF r2 a2 k1] obtain s2 x2 where
    d2: "decode_inline b2 = Inr x2" and
    p2: "playback (env c2) = playback (env c1) @
           [(s2, max (nextAudioStartTimeRef (refs c1)) now2, duration x2)]" and
    n2: "nextAudioStartTimeRef (refs c2) =
           max (nextAudioStartTimeRef (refs c1)) now2 + duration x2" and
    k2: "outputAudioContextRef (refs c2) \<noteq> None"
    using k1 by auto
  from onmessage_scheduled [OF r3 a3 k2] obtain s3 x3 where
    d3: "decode_inline b3 = Inr x3" and
    p3: "playback (env c3) = playback (env c2) @
           [(s3, max (nextAudioStartTimeRef (refs c2)) now3, duration x3)]"
    by auto
  have e2: "max (nextAudioStartTimeRef (refs c1)) now2 =
              max (nextAudioStartTimeRef (refs c0)) now1 + duration x1"
    using ahead2 n1 by (simp add: max_def)
  have e3: "max (nextAudioStartTimeRef (refs c2)) now3 =
              max (nextAudioStartTimeRef (refs c0)) now1 + duration x1 + duration x2"
    using ahead3 n2 e2 by (simp add: max_def)
  have "playback (env c3) = playback (env c0) @
             [(s1, max (nextAudioStartTimeRef (refs c0)) now1, duration x1),
              (s2, max (nextAudioStartTimeRef (refs c0)) now1 + duration x1, duration x2),
              (s3, max (nextAudioStartTimeRef (refs c0)) now1 + duration x1 + duration x2,
               duration x3)]"
    by (simp only: p3 p2 p1 e3 e2 append_assoc append_Cons append_Nil)
  with d1 d2 d3 show ?thesis by blast
qed

text \<open>
  C1. Whenever \<^verbatim>\<open>onmessage\<close> returns for a message with audio while the output
  context is set, the audio was decoded to a buffer, the buffer was scheduled on the output
  at \<open>max nextAudioStartTimeRef now\<close>, and \<^verbatim>\<open>nextAudioStartTimeRef\<close> is that start
  plus the buffer's duration. For three such messages in a row, the second and the third
  arriving while the clock has not passed \<^verbatim>\<open>nextAudioStartTimeRef\<close>, the three
  buffers start at \<open>t0\<close>, \<open>t0 + d1\<close> and \<open>t0 + d1 + d2\<close>, with \<open>t0\<close> the start of the first:
  each buffer starts where the one before it ends.
\<close>

theorem playback_schedule:
  "(\<forall>now message c c' b.
      onmessage now message c = Inr c' \<and> inlineData message = Some b \<and> b \<noteq> [] \<and>
      outputAudioContextRef (refs c) \<noteq> None \<longrightarrow>
      (\<exists>source audioBuffer. decode_inline b = Inr audioBuffer \<and>
         playback (env c') = playback (env c) @
           [(source, max (nextAudioStartTimeRef (refs c)) now, duration audioBuffer)] \<and>
         nextAudioStartTimeRef (refs c') =
           max (nextAudioStartTimeRef (refs c)) now + duration audioBuffer)) \<and>
   (\<forall>now1 now2 now3 m1 m2 m3 b1 b2 b3 c0 c1 c2 c3.
      onmessage now1 m1 c0 = Inr c1 \<and> onmessage now2 m2 c1 = Inr c2 \<and>
      onmessage now3 m3 c2 = Inr c3 \<and>
      inlineData m1 = Some b1 \<and> b1 \<noteq> [] \<and> inlineData m2 = Some b2 \<and> b2 \<noteq> [] \<and>
      inlineData m3 = Some b3 \<and> b3 \<noteq> [] \<and>
      outputAudioContextRef (refs c0) \<noteq> None \<and>
      now2 \<le> nextAudioStartTimeRef (refs c1) \<and> now3 \<le> nextAudioStartTimeRef (refs c2) \<longrightarrow>
      (\<exists>s1 s2 s3 a1 a2 a3.
         decode_inline b1 = Inr a1 \<and> decode_inline b2 = Inr a2 \<and>
         decode_inline b3 = Inr a3 \<and>
         playback (env c3) = playback (env c0) @
           [(s1, max (nextAudioStartTimeRef (refs c0)) now1, duration a1),
            (s2, max (nextAudioStartTimeRef (refs c0)) now1 + duration a1, duration a2),
            (s3, max (nextAudioStartTimeRef (refs c0)) now1 + duration a1 + duration a2,
             duration a3)]))"
proof (intro conjI allI impI)
  fix now message c c' b
  assume "onmessage now message c = Inr c' \<and> inlineData message = Some b \<and> b \<noteq> [] \<and>
      outputAudioContextRef (refs c) \<noteq> None"
  then show "\<exists>source audioBuffer. decode_inline b = Inr audioBuffer \<and>
         playback (env c') = playback (env c) @
           [(source, max (nextAudioStartTimeRef (refs c)) now, duration audioBuffer)] \<and>
         nextAudioStartTimeRef (refs c') =
           max (nextAudioStartTimeRef (refs c)) now + duration audioBuffer"
    using onmessage_scheduled [of now message c c' b] by blast
next
  fix now1 now2 now3 :: real and m1 m2 m3 b1 b2 b3 c0 c1 c2 c3
  assume "onmessage now1 m1 c0 = Inr c1 \<and> onmessage now2 m2 c1 = Inr c2 \<and>
      onmessage now3 m3 c2 = Inr c3 \<and>
      inlineData m1 = Some b1 \<and> b1 \<noteq> [] \<and> inlineData m2 = Some b2 \<and> b2 \<noteq> [] \<and>
      inlineData m3 = Some b3 \<and> b3 \<noteq> [] \<and>
      outputAudioContextRef (refs c0) \<noteq> None \<and>
      now2 \<le> nextAudioStartTimeRef (refs c1) \<and> now3 \<le> nextAudioStartTimeRef (refs c2)"
  then show "\<exists>s1 s2 s3 a1 a2 a3.
         decode_inline b1 = Inr a1 \<and> decode_inline b2 = Inr a2 \<and>
         decode_inline b3 = Inr a3 \<and>
         playback (env c3) = playback (env c0) @
           [(s1, max (nextAudioStartTimeRef (refs c0)) now1, duration a1),
            (s2, max (nextAudioStartTimeRef (refs c0)) now1 + duration a1, duration a2),
            (s3, max (nextAudioStartTimeRef (refs c0)) now1 + duration a1 + duration a2,
             duration a3)]"
    using onmessage_three [of now1 m1 c0 c1 now2 m2 c2 now3 m3 c3 b1 b2 b3] by blast
qed

text \<open>
  Three one-frame buffers (base64 \<^verbatim>\<open>AAA=\<close>, two zero bytes, 1/24000 s) in a session
  started from the mounted component: the second arrives at once, the third while the
  first plays.
\<close>

lemma onmessage_audio_only:
  assumes "inputTranscription m = None" "outputTranscription m = None"
    and "\<not> turnComplete m" and "inlineData m = Some b" "b \<noteq> []"
    and "outputAudioContextRef (refs c) \<noteq> None"
    and "decode_inline b = Inr a"
  shows "onmessage now m c =
           Inr (schedule_buffer now a
                  (c\<lparr>ui := (ui c)\<lparr>audioSessionStatus := ai_speaking\<rparr>,
                     refs := (refs c)\<lparr>nextAudioStartTimeRef :=
                       max (nextAudioStartTimeRef (refs c)) now\<rparr>\<rparr>))"
  using assms
  by (cases "outputAudioContextRef (refs c)")
     (simp_all add: onmessage_def on_inputTranscription_def on_outputTranscription_def
        on_turnComplete_def on_audio_def exec_def setAudioSessionStatus_def)

lemma start_mounted:
  "\<exists>c0. startLiveAudioSession (ui mounted) True mounted = Inr c0 \<and>
     mediaStreamRef (refs c0) = Some 0 \<and> inputAudioContextRef (refs c0) = Some 1 \<and>
     outputAudioContextRef (refs c0) = Some 2 \<and> sessionPromiseRef (refs c0) = Some 3 \<and>
     nextAudioStartTimeRef (refs c0) = 0 \<and> audioSourcesRef (refs c0) = [] \<and>
     audioSessionStatusRef (refs c0) = idle \<and>
     env c0 = (env mounted)\<lparr>next_handle := 4, live_streams := {0}, open_contexts := {2, 1},
               open_sessions := {3}\<rparr> \<and>
     ui c0 = (ui mounted)\<lparr>isAudioSessionActive := True, sessionState := SS_chat_active,
               isLoading := True, audioSessionStatus := connecting\<rparr>"
  by (simp add: startLiveAudioSession_def startLiveAudioSession_begin_def
      startLiveAudioSession_resume_def exec_def mounted_def
      setIsAudioSessionActive_def setSessionState_def setIsLoading_def
      setAudioSessionStatus_def acquire_stream_def new_input_context_def
      new_output_context_def live_connect_def fresh_def
      numeral_2_eq_2 numeral_3_eq_3 eval_nat_numeral)

lemma decode_one_frame:
  "decode_inline [65, 65, 65, 61] = Inr \<lparr>sampleRate = 24000, channelData = [0]\<rparr>"
proof -
  have "decode [65, 65, 65, 61] = Inr [0, 0]"
    by (simp add: decode_def atob_def ascii_whitespace_def strip_padding_def dec6_def)
  then show ?thesis
    by (simp add: decode_inline_def decodeAudioData_def)
qed

theorem playback_schedule_witness:
  "\<exists>c0 c1 c2 c3 s1 s2 s3.
     startLiveAudioSession (ui mounted) True mounted = Inr c0 \<and>
     onmessage 0
       \<lparr>inputTranscription = None, outputTranscription = None, turnComplete = False,
        inlineData = Some [65, 65, 65, 61]\<rparr> c0 = Inr c1 \<and>
     onmessage 0
       \<lparr>inputTranscription = None, outputTranscription = None, turnComplete = False,
        inlineData = Some [65, 65, 65, 61]\<rparr> c1 = Inr c2 \<and>
     onmessage (1 / 24000)
       \<lparr>inputTranscription = None, outputTranscription = None, turnComplete = False,
        inlineData = Some [65, 65, 65, 61]\<rparr> c2 = Inr c3 \<and>
     playback (env c3) =
       [(s1, 0, 1 / 24000), (s2, 1 / 24000, 1 / 24000), (s3, 2 / 24000, 1 / 24000)]"
proof -
  let ?m = "\<lparr>inputTranscription = None, outputTranscription = None, turnComplete = False,
        inlineData = Some [65, 65, 65, 61]\<rparr>"
  let ?a = "\<lparr>sampleRate = 24000, channelData = [0]\<rparr>"
  have dur: "duration ?a = 1 / 24000"
    by (simp add: duration_def)
  have step: "outputAudioContextRef (refs c) \<noteq> None \<Longrightarrow>
      \<exists>c'. onmessage now ?m c = Inr c' \<and> outputAudioContextRef (refs c') \<noteq> None \<and>
        nextAudioStartTimeRef (refs c') = max (nextAudioStartTimeRef (refs c)) now + 1 / 24000"
    for c now
    by (simp add: onmessage_audio_only decode_one_frame schedule_buffer_ctx
        schedule_buffer_next dur)
  from start_mounted obtain c0 where
    s0: "startLiveAudioSession (ui mounted) True mounted = Inr c0"
    and k0: "outputAudioContextRef (refs c0) \<noteq> None"
    and n0: "nextAudioStartTimeRef (refs c0) = 0"
    and p0: "playback (env c0) = []"
    by (auto simp: mounted_def)
  from step [OF k0, of 0] n0 obtain c1 where s1: "onmessage 0 ?m c0 = Inr c1"
    and k1: "outputAudioContextRef (refs c1) \<noteq> None"
    and n1: "nextAudioStartTimeRef (refs c1) = 1 / 24000"
    by auto
  from step [OF k1, of 0] n1 obtain c2 where s2: "onmessage 0 ?m c1 = Inr c2"
    and k2: "outputAudioContextRef (refs c2) \<noteq> None"
    and n2: "nextAudioStartTimeRef (refs c2) = 2 / 24000"
    by auto
  from step [OF k2, of "1 / 24000"] obtain c3 where
    s3: "onmessage (1 / 24000) ?m c2 = Inr c3"
    by auto
  from playback_schedule [THEN conjunct2, rule_format,
      of 0 ?m c0 c1 0 ?m c2 "1 / 24000" ?m c3
         "[65, 65, 65, 61]" "[65, 65, 65, 61]" "[65, 65, 65, 61]"]
    s1 s2 s3 k0 n1 n2
  obtain h1 h2 h3 where
    "playback (env c3) = playback (env c0) @
       [(h1, max (nextAudioStartTimeRef (refs c0)) 0, duration ?a),
        (h2, max (nextAudioStartTimeRef (refs c0)) 0 + duration ?a, duration ?a),
        (h3, max (nextAudioStartTimeRef (refs c0)) 0 + duration ?a + duration ?a,
         duration ?a)]"
    by (auto simp: decode_one_frame)
  then have "playback (env c3) =
       [(h1, 0, 1 / 24000), (h2, 1 / 24000, 1 / 24000), (h3, 2 / 24000, 1 / 24000)]"
    by (simp add: p0 n0 dur)
  with s0 s1 s2 s3 show ?thesis by blast
qed

subsection \<open>Evaluating the handlers on concrete states\<close>

lemmas handler_defs =
  startLiveAudioSession_begin_def startLiveAudioSession_resume_def
  setIsAudioSessionActive_def setSessionState_def setIsLoading_def setAudioSessionStatus_def
  setError_def setChatSession_def setMessages_def setIsSpeaking_def setQuestions_def
  setAnswers_def setFeedback_def setTimeLeft_def setCompletedSession_def
  acquire_stream_def new_input_context_def new_output_context_def live_connect_def
  fresh_def exec_def state_of_def sync_status_ref_def render_def dispatch_def run_def
  onopen_def wire_capture_def

lemma onmessage_audio_msg:
  "outputAudioContextRef (refs c) \<noteq> None \<Longrightarrow>
   onmessage now audio_msg c =
     Inr (schedule_buffer now \<lparr>sampleRate = 24000, channelData = [0]\<rparr>
            (c\<lparr>ui := (ui c)\<lparr>audioSessionStatus := ai_speaking\<rparr>,
               refs := (refs c)\<lparr>nextAudioStartTimeRef :=
                 max (nextAudioStartTimeRef (refs c)) now\<rparr>\<rparr>))"
  by (rule onmessage_audio_only [where b = "[65, 65, 65, 61]"])
     (simp_all add: audio_msg_def decode_one_frame)

lemmas message_defs =
  onmessage_def on_inputTranscription_def on_outputTranscription_def on_turnComplete_def
  on_audio_def update_messages_def

lemmas teardown_defs =
  resetToIdle_def handleEndSession_def cleanupAudio_def onerror_def on_ref_def
  session_close_def stop_tracks_def disconnect_def close_context_def source_stop_def
  synth_cancel_def clear_interval_def

text \<open>
  The audio session of the text chat, open: the button clicked, the microphone granted,
  the connection open and the capture graph wired.
\<close>

lemma run_session_open:
  "run [ClickAudio, MicSettled (ui text_chat) True, Open] text_chat =
   text_chat\<lparr>
     ui := (ui text_chat)\<lparr>isAudioSessionActive := True,
        audioSessionStatus := waiting_for_ai\<rparr>,
     refs := (refs text_chat)\<lparr>audioSessionStatusRef := waiting_for_ai,
        mediaStreamRef := Some 1, inputAudioContextRef := Some 2,
        outputAudioContextRef := Some 3, sessionPromiseRef := Some 4,
        mediaStreamSourceRef := Some 5, scriptProcessorRef := Some 6\<rparr>,
     env := (env text_chat)\<lparr>next_handle := 7, live_streams := {1}, open_contexts := {2, 3},
        open_sessions := {4}, connected_nodes := {5, 6}\<rparr>\<rparr>"
  by (auto simp: handler_defs audio_button_enabled_def Let_def text_chat_def mounted_def
      eval_nat_numeral)

text \<open>A call through a ref that may be \<^verbatim>\<open>null\<close>, as one update of the environment.\<close>

lemma on_ref_session_close:
  "on_ref r session_close c = c\<lparr>env := (env c)\<lparr>open_sessions := open_sessions (env c) - set_option r\<rparr>\<rparr>"
  by (cases r) (simp_all add: on_ref_def session_close_def)

lemma on_ref_stop_tracks:
  "on_ref r stop_tracks c = c\<lparr>env := (env c)\<lparr>live_streams := live_streams (env c) - set_option r\<rparr>\<rparr>"
  by (cases r) (simp_all add: on_ref_def stop_tracks_def)

lemma on_ref_disconnect:
  "on_ref r disconnect c = c\<lparr>env := (env c)\<lparr>connected_nodes := connected_nodes (env c) - set_option r\<rparr>\<rparr>"
  by (cases r) (simp_all add: on_ref_def disconnect_def)

lemma on_ref_close_context:
  "on_ref r close_context c = c\<lparr>env := (env c)\<lparr>open_contexts := open_contexts (env c) - set_option r\<rparr>\<rparr>"
  by (cases r) (simp_all add: on_ref_def close_context_def)

subsection \<open>C2: the gate of the capture callback\<close>



























subsection \<open>C3: transcript fragments across a turn boundary\<close>

text \<open>
  A fragment of the user never starts a message. The updater runs at the render, after the
  handler has set \<^verbatim>\<open>lastMessageRoleRef\<close> to \<^verbatim>\<open>user\<close> (line 424), so it takes the
  branch that overwrites the content of the last message, whatever that message is.
\<close>

lemma user_fragment_never_appends:
  assumes "pending c = []" and "messages (ui c) \<noteq> []"
  shows "messages (ui (dispatch c (Message now (user_fragment t)))) =
     (messages (ui c))[length (messages (ui c)) - 1 :=
        (last (messages (ui c)))\<lparr>content := currentInputTranscriptionRef (refs c) @ t\<rparr>]"
  using assms
  by (simp add: handler_defs message_defs user_fragment_def Let_def)

text \<open>
  C3 fails on the code. In the audio session started from the text chat, whose transcript
  holds the model's opening message, the fragments \<^verbatim>\<open>Hel\<close> and \<^verbatim>\<open>lo \<close> of the
  user are written over the opening message; after the turn-complete signal, which clears
  the two buffers and leaves \<^verbatim>\<open>lastMessageRoleRef\<close> as it was, the fragment
  \<^verbatim>\<open>Hi\<close> does not start a new message: it replaces the text of the finished turn.
  The transcript is \<open>[{model, Hi}]\<close>; it holds neither \<open>{user, Hello }\<close> nor a
  separate \<open>{user, Hi}\<close>.
\<close>

theorem turn_boundary_overwrites:
  "(let c = run [ClickAudio, MicSettled (ui text_chat) True, Open] text_chat in
    messages (ui c) = [\<lparr>role = model, content = ''Welcome.''\<rparr>] \<and>
    messages (ui (run [Message 0 (user_fragment ''Hel''), Message 0 (user_fragment ''lo '')] c))
      = [\<lparr>role = model, content = ''Hello ''\<rparr>] \<and>
    messages (ui (run [Message 0 (user_fragment ''Hel''), Message 0 (user_fragment ''lo ''),
                       Message 0 turn_complete_msg, Message 0 (user_fragment ''Hi'')] c))
      = [\<lparr>role = model, content = ''Hi''\<rparr>])"
  unfolding Let_def run_session_open
  by (simp add: handler_defs message_defs user_fragment_def turn_complete_msg_def Let_def
      text_chat_def mounted_def)

subsection \<open>C4: cleanupAudio twice\<close>

lemma stop_sources_started:
  "list_all (\<lambda>h. h \<in> started_sources (env c)) hs \<Longrightarrow>
   stop_sources hs c =
     Inr (c\<lparr>env := (env c)\<lparr>stopped_sources := set hs \<union> stopped_sources (env c)\<rparr>\<rparr>)"
proof (induction hs arbitrary: c)
  case Nil
  then show ?case by simp
next
  case (Cons h hs)
  then show ?case by (simp add: source_stop_def)
qed

lemma cleanupAudio_started:
  assumes "list_all (\<lambda>h. h \<in> started_sources (env c)) (audioSourcesRef (refs c))"
  shows "cleanupAudio c = Inr (torn_down c)"
  using assms
  by (simp add: cleanupAudio_def exec_def on_ref_session_close on_ref_stop_tracks
      on_ref_disconnect on_ref_close_context stop_sources_started synth_cancel_def
      setIsSpeaking_def torn_down_def)

lemma torn_down_released: "all_released (torn_down c)"
  by (simp add: all_released_def torn_down_def)

lemma torn_down_started:
  "list_all (\<lambda>h. h \<in> started_sources (env (torn_down c))) (audioSourcesRef (refs (torn_down c)))"
  by (simp add: torn_down_def)

lemma torn_down_twice: "torn_down (torn_down c) = torn_down c"
  by (simp add: torn_down_def)

text \<open>
  C4. In a state where \<^verbatim>\<open>start\<close> was called on every buffer source in flight (the
  handler adds a source to the set only after starting it), \<^verbatim>\<open>cleanupAudio\<close> returns
  without throwing, a second invocation on the state it leaves returns without throwing
  and changes nothing, and after either invocation the six resource references are
  \<^verbatim>\<open>null\<close> and the set of sources in flight is empty.
\<close>

theorem cleanupAudio_twice:
  assumes "list_all (\<lambda>h. h \<in> started_sources (env c)) (audioSourcesRef (refs c))"
  shows "\<exists>c1 c2. cleanupAudio c = Inr c1 \<and> cleanupAudio c1 = Inr c2 \<and>
           all_released c1 \<and> all_released c2 \<and> c2 = c1"
proof -
  have first: "cleanupAudio c = Inr (torn_down c)"
    using assms by (rule cleanupAudio_started)
  have "cleanupAudio (torn_down c) = Inr (torn_down (torn_down c))"
    using torn_down_started by (rule cleanupAudio_started)
  then have second: "cleanupAudio (torn_down c) = Inr (torn_down c)"
    by (simp only: torn_down_twice)
  from first second torn_down_released [of c] show ?thesis by blast
qed

lemma schedule_buffer_sources:
  "audioSourcesRef (refs (schedule_buffer now a c)) =
     audioSourcesRef (refs c) @ [next_handle (env c)]"
  by (simp add: schedule_buffer_def fresh_def Let_def)

lemma schedule_buffer_started:
  "started_sources (env (schedule_buffer now a c)) =
     insert (next_handle (env c)) (started_sources (env c))"
  by (simp add: schedule_buffer_def fresh_def Let_def)

text \<open>The hypothesis of C4 is kept by every message.\<close>

lemma onmessage_keeps_started:
  assumes run: "onmessage now message c = Inr c'"
    and inv: "list_all (\<lambda>h. h \<in> started_sources (env c)) (audioSourcesRef (refs c))"
  shows "list_all (\<lambda>h. h \<in> started_sources (env c')) (audioSourcesRef (refs c'))"
proof -
  from run obtain c1 c2 c3 where
    s1: "on_inputTranscription message c = Inr c1" and
    s2: "on_outputTranscription message c1 = Inr c2" and
    s3: "on_turnComplete message c2 = Inr c3" and
    s4: "on_audio now message c3 = Inr c'"
    by (auto simp: onmessage_def seq_Cons_Inr seq_Nil_Inr simp del: seq.simps)
  have frame: "env c3 = env c" "audioSourcesRef (refs c3) = audioSourcesRef (refs c)"
    using on_inputTranscription_frame [OF s1] on_outputTranscription_frame [OF s2]
      on_turnComplete_frame [OF s3] by simp_all
  show ?thesis
  proof (cases "\<exists>b. inlineData message = Some b \<and> b \<noteq> [] \<and>
                  outputAudioContextRef (refs c3) \<noteq> None")
    case True
    then obtain b where "inlineData message = Some b" "b \<noteq> []"
      "outputAudioContextRef (refs c3) \<noteq> None" by blast
    from on_audio_scheduled [OF s4 this] obtain a where
      "c' = schedule_buffer now a
                  (c3\<lparr>ui := (ui c3)\<lparr>audioSessionStatus := ai_speaking\<rparr>,
                     refs := (refs c3)\<lparr>nextAudioStartTimeRef :=
                       max (nextAudioStartTimeRef (refs c3)) now\<rparr>\<rparr>)"
      by blast
    with inv frame show ?thesis
      by (simp add: schedule_buffer_sources schedule_buffer_started list_all_iff)
  next
    case False
    with s4 have "c' = c3"
      by (auto simp: on_audio_def split: option.splits if_splits)
    with inv frame show ?thesis by simp
  qed
qed

theorem cleanupAudio_twice_witness:
  "\<exists>c0 c1 c2 c3.
     startLiveAudioSession (ui mounted) True mounted = Inr c0 \<and>
     onmessage 0
       \<lparr>inputTranscription = None, outputTranscription = None, turnComplete = False,
        inlineData = Some [65, 65, 65, 61]\<rparr> c0 = Inr c1 \<and>
     mediaStreamRef (refs c1) = Some 0 \<and> audioSourcesRef (refs c1) = [4] \<and>
     list_all (\<lambda>h. h \<in> started_sources (env c1)) (audioSourcesRef (refs c1)) \<and>
     cleanupAudio c1 = Inr c2 \<and> cleanupAudio c2 = Inr c3 \<and>
     all_released c2 \<and> all_released c3"
proof -
  let ?m = "\<lparr>inputTranscription = None, outputTranscription = None, turnComplete = False,
        inlineData = Some [65, 65, 65, 61]\<rparr>"
  from start_mounted obtain c0 where
    s0: "startLiveAudioSession (ui mounted) True mounted = Inr c0"
    and r0: "mediaStreamRef (refs c0) = Some 0" "outputAudioContextRef (refs c0) = Some 2"
      "audioSourcesRef (refs c0) = []"
    and e0: "env c0 = (env mounted)\<lparr>next_handle := 4, live_streams := {0},
               open_contexts := {2, 1}, open_sessions := {3}\<rparr>"
    by blast
  define c1 where "c1 = schedule_buffer 0 \<lparr>sampleRate = 24000, channelData = [0]\<rparr>
                  (c0\<lparr>ui := (ui c0)\<lparr>audioSessionStatus := ai_speaking\<rparr>,
                     refs := (refs c0)\<lparr>nextAudioStartTimeRef :=
                       max (nextAudioStartTimeRef (refs c0)) 0\<rparr>\<rparr>)"
  have s1: "onmessage 0 ?m c0 = Inr c1"
    using r0 by (simp add: c1_def onmessage_audio_only decode_one_frame)
  have m1: "mediaStreamRef (refs c1) = Some 0"
    using r0 by (simp add: c1_def schedule_buffer_def fresh_def Let_def)
  have a1: "audioSourcesRef (refs c1) = [4]"
    using r0 e0 by (simp add: c1_def schedule_buffer_sources)
  have st1: "list_all (\<lambda>h. h \<in> started_sources (env c1)) (audioSourcesRef (refs c1))"
    using e0 by (simp add: a1) (simp add: c1_def schedule_buffer_started)
  from cleanupAudio_twice [OF st1] obtain c2 c3 where
    "cleanupAudio c1 = Inr c2" "cleanupAudio c2 = Inr c3" "all_released c2" "all_released c3"
    by blast
  with s0 s1 m1 a1 st1 show ?thesis by blast
qed

subsection \<open>C5: the playback-status timer\<close>

lemma playback_inv_sched: "sched c' = sched c \<Longrightarrow> playback_inv c' = playback_inv c"
  by (simp add: sched_def playback_inv_def)

lemma keeps_exec: "(\<And>c. sched (f c) = sched c) \<Longrightarrow> keeps_sched (exec f)"
  by (simp add: keeps_sched_def exec_def state_of_def)

lemma keeps_seq: "list_all keeps_sched ss \<Longrightarrow> keeps_sched (seq ss)"
proof (induction ss)
  case Nil
  show ?case by (simp add: keeps_sched_def state_of_def)
next
  case (Cons s ss)
  then have s: "\<And>c. sched (state_of (s c)) = sched c"
    and ss: "\<And>c. sched (state_of (seq ss c)) = sched c"
    by (simp_all add: keeps_sched_def)
  show ?case
    unfolding keeps_sched_def
  proof
    fix c
    show "sched (state_of (seq (s # ss) c)) = sched c"
    proof (cases "s c")
      case (Inl ec)
      with s [of c] show ?thesis by simp
    next
      case (Inr c1)
      with s [of c] ss [of c1] show ?thesis by (simp add: state_of_def)
    qed
  qed
qed

lemma sched_simps:
  "sched (setSessionState a c) = sched c"
  "sched (setIsLoading b c) = sched c"
  "sched (setError e c) = sched c"
  "sched (setIsAudioSessionActive b c) = sched c"
  "sched (setChatSession h c) = sched c"
  "sched (setMessages ms c) = sched c"
  "sched (setIsSpeaking b c) = sched c"
  "sched (setQuestions qs c) = sched c"
  "sched (setAnswers qs c) = sched c"
  "sched (setFeedback f c) = sched c"
  "sched (setTimeLeft t c) = sched c"
  "sched (setAudioSessionStatus st c) = sched c"
  "sched (setCompletedSession cs c) = sched c"
  "sched (sync_status_ref c) = sched c"
  "sched (synth_cancel c) = sched c"
  "sched (clear_interval c) = sched c"
  "sched (on_ref r session_close c) = sched c"
  "sched (on_ref r stop_tracks c) = sched c"
  "sched (on_ref r disconnect c) = sched c"
  "sched (on_ref r close_context c) = sched c"
  "sched (acquire_stream c) = sched c"
  "sched (new_input_context c) = sched c"
  "sched (new_output_context c) = sched c"
  "sched (live_connect c) = sched c"
  "sched (wire_capture c) = sched c"
  "sched (on_ended source c) = sched c"
  by (simp_all add: sched_def setSessionState_def setIsLoading_def setError_def
      setIsAudioSessionActive_def setChatSession_def setMessages_def setIsSpeaking_def
      setQuestions_def setAnswers_def setFeedback_def setTimeLeft_def
      setAudioSessionStatus_def setCompletedSession_def sync_status_ref_def
      synth_cancel_def clear_interval_def on_ref_session_close on_ref_stop_tracks
      on_ref_disconnect on_ref_close_context acquire_stream_def new_input_context_def
      new_output_context_def live_connect_def wire_capture_def on_ended_def fresh_def
      split: option.splits)

lemma keeps_stop_sources: "keeps_sched (stop_sources hs)"
  unfolding keeps_sched_def
proof (induction hs)
  case Nil
  show ?case by (simp add: state_of_def)
next
  case (Cons h hs)
  show ?case
  proof
    fix c
    show "sched (state_of (stop_sources (h # hs) c)) = sched c"
    proof (cases "h \<in> started_sources (env c)")
      case False
      then show ?thesis by (simp add: source_stop_def state_of_def)
    next
      case True
      then have "stop_sources (h # hs) c =
          stop_sources hs (c\<lparr>env := (env c)\<lparr>stopped_sources := insert h (stopped_sources (env c))\<rparr>\<rparr>)"
        by (simp add: source_stop_def)
      with Cons show ?thesis by (simp add: sched_def)
    qed
  qed
qed

lemma sched_ref_updates:
  "sched (c\<lparr>refs := (refs c)\<lparr>sessionPromiseRef := h\<rparr>\<rparr>) = sched c"
  "sched (c\<lparr>refs := (refs c)\<lparr>mediaStreamRef := h\<rparr>\<rparr>) = sched c"
  "sched (c\<lparr>refs := (refs c)\<lparr>scriptProcessorRef := h\<rparr>\<rparr>) = sched c"
  "sched (c\<lparr>refs := (refs c)\<lparr>mediaStreamSourceRef := h\<rparr>\<rparr>) = sched c"
  "sched (c\<lparr>refs := (refs c)\<lparr>inputAudioContextRef := h\<rparr>\<rparr>) = sched c"
  "sched (c\<lparr>refs := (refs c)\<lparr>outputAudioContextRef := h\<rparr>\<rparr>) = sched c"
  "sched (c\<lparr>refs := (refs c)\<lparr>audioSourcesRef := hs\<rparr>\<rparr>) = sched c"
  "sched (c\<lparr>refs := (refs c)\<lparr>lastMessageRoleRef := r\<rparr>\<rparr>) = sched c"
  "sched (c\<lparr>refs := (refs c)\<lparr>currentInputTranscriptionRef := t\<rparr>\<rparr>) = sched c"
  "sched (c\<lparr>refs := (refs c)\<lparr>currentOutputTranscriptionRef := t\<rparr>\<rparr>) = sched c"
  "sched (c\<lparr>refs := (refs c)\<lparr>currentInputTranscriptionRef := t,
                                currentOutputTranscriptionRef := t'\<rparr>\<rparr>) = sched c"
  by (simp_all add: sched_def)

lemma keeps_stop_sources_of: "keeps_sched (\<lambda>c. stop_sources (g c) c)"
  using keeps_stop_sources by (simp add: keeps_sched_def)

lemma keeps_cleanupAudio: "keeps_sched cleanupAudio"
  unfolding cleanupAudio_def
  by (rule keeps_seq)
     (simp add: keeps_exec sched_simps sched_ref_updates keeps_stop_sources_of)

lemma keeps_resetToIdle: "keeps_sched resetToIdle"
  unfolding resetToIdle_def
  by (rule keeps_seq) (simp add: keeps_exec sched_simps keeps_cleanupAudio)

lemma keeps_handleEndSession: "keeps_sched (handleEndSession snap)"
proof -
  have "keeps_sched (\<lambda>c. if sessionState snap = SS_chat_active \<and>
                length (messages snap) > (if isAudioSessionActive snap then 0 else 1)
             then (case modalConfig snap of
                     None \<Rightarrow> Inl (TypeError, c)
                   | Some t \<Rightarrow>
                       seq [
                         exec (setCompletedSession
                           (Some \<lparr>cs_messages = messages snap, cs_type = t,
                                  cs_isAudio = isAudioSessionActive snap\<rparr>)),
                         exec (setSessionState SS_session_completed)] c)
             else resetToIdle c)"
    using keeps_resetToIdle
    by (cases "modalConfig snap")
       (simp_all add: keeps_sched_def exec_def state_of_def sched_simps)
  then show ?thesis
    unfolding handleEndSession_def
    by (intro keeps_seq) (simp add: keeps_exec sched_simps keeps_cleanupAudio)
qed

lemma keeps_begin: "keeps_sched startLiveAudioSession_begin"
  unfolding startLiveAudioSession_begin_def
  by (rule keeps_seq) (simp add: keeps_exec sched_simps)

lemma keeps_resume: "keeps_sched (startLiveAudioSession_resume snap mic)"
  unfolding startLiveAudioSession_resume_def
  by (cases mic)
     (simp_all add: keeps_seq keeps_exec sched_simps keeps_handleEndSession del: seq.simps)

lemma keeps_onerror: "keeps_sched (onerror snap)"
  unfolding onerror_def
  by (rule keeps_seq) (simp add: keeps_exec sched_simps keeps_handleEndSession)

lemma keeps_onopen: "keeps_sched onopen"
  unfolding onopen_def
  by (rule keeps_seq) (simp add: keeps_exec sched_simps)

lemma keeps_onaudioprocess: "keeps_sched (onaudioprocess inputData)"
  by (simp add: keeps_sched_def onaudioprocess_def state_of_def sched_def
      split: sum.splits option.splits)

lemma keeps_render: "keeps_sched render"
  by (simp add: keeps_sched_def render_def state_of_def sched_def split: sum.splits)

lemma keeps_on_inputTranscription: "keeps_sched (on_inputTranscription message)"
  unfolding on_inputTranscription_def
  by (cases "inputTranscription message")
     (simp_all add: keeps_seq keeps_exec sched_ref_updates sched_simps
        del: seq.simps)

lemma keeps_on_outputTranscription: "keeps_sched (on_outputTranscription message)"
  unfolding on_outputTranscription_def
  by (cases "outputTranscription message")
     (simp_all add: keeps_seq keeps_exec sched_ref_updates sched_simps
        del: seq.simps)

lemma keeps_on_turnComplete: "keeps_sched (on_turnComplete message)"
  unfolding on_turnComplete_def
  by (simp add: keeps_seq keeps_exec sched_ref_updates del: seq.simps)

lemma keeps_preserves:
  assumes "keeps_sched s"
  shows "preserves playback_inv s"
  unfolding preserves_def
proof (intro allI impI)
  fix c
  assume inv: "playback_inv c"
  from assms have "sched (state_of (s c)) = sched c"
    by (simp add: keeps_sched_def)
  from playback_inv_sched [OF this] inv show "playback_inv (state_of (s c))"
    by simp
qed

lemma duration_nonneg: "0 \<le> duration a"
  by (simp add: duration_def)

lemma ends_by_mono: "t \<le> t' \<Longrightarrow> ends_by t p \<Longrightarrow> ends_by t' p"
  by (simp add: ends_by_def)

lemma list_all_ends_by_mono:
  "t \<le> t' \<Longrightarrow> list_all (ends_by t) ps \<Longrightarrow> list_all (ends_by t') ps"
  using ends_by_mono by (auto simp: list_all_iff)

lemma inv_max:
  assumes "playback_inv c"
  shows "playback_inv (c\<lparr>refs := (refs c)\<lparr>nextAudioStartTimeRef :=
                       max (nextAudioStartTimeRef (refs c)) now\<rparr>\<rparr>)"
  using assms list_all_ends_by_mono [of "nextAudioStartTimeRef (refs c)"
      "max (nextAudioStartTimeRef (refs c)) now" "playback (env c)"]
  by (simp add: playback_inv_def)

lemma new_timer_ok:
  "timer_armed_ok \<lparr>armed_at = now,
      delay_ms = (if (e - now) * 1000 > 0 then (e - now) * 1000 else 0),
      scheduledEndTime = e\<rparr>"
  by (simp add: timer_armed_ok_def field_simps)

lemma schedule_buffer_timers:
  "timers (env (schedule_buffer now a c)) = timers (env c) @
     [\<lparr>armed_at = now,
       delay_ms = (if (nextAudioStartTimeRef (refs c) + duration a - now) * 1000 > 0
                   then (nextAudioStartTimeRef (refs c) + duration a - now) * 1000 else 0),
       scheduledEndTime = nextAudioStartTimeRef (refs c) + duration a\<rparr>]"
  by (simp add: schedule_buffer_def fresh_def Let_def)

lemma inv_schedule_buffer:
  assumes "playback_inv c"
  shows "playback_inv (schedule_buffer now a c)"
proof -
  have "list_all (ends_by (nextAudioStartTimeRef (refs c) + duration a)) (playback (env c))"
    using assms duration_nonneg [of a]
      list_all_ends_by_mono [of "nextAudioStartTimeRef (refs c)"
        "nextAudioStartTimeRef (refs c) + duration a" "playback (env c)"]
    by (simp add: playback_inv_def)
  moreover have "list_all timer_armed_ok (timers (env (schedule_buffer now a c)))"
    using assms
    by (simp only: schedule_buffer_timers list_all_append list.pred_inject new_timer_ok
        playback_inv_def)
  ultimately show ?thesis
    by (simp add: playback_inv_def schedule_buffer_playback schedule_buffer_next ends_by_def)
qed

lemma preserves_on_audio: "preserves playback_inv (on_audio now message)"
proof -
  have steps: "preserves playback_inv
     (seq [
        exec (setAudioSessionStatus ai_speaking),
        exec (\<lambda>c. c\<lparr>refs := (refs c)\<lparr>nextAudioStartTimeRef :=
                     max (nextAudioStartTimeRef (refs c)) now\<rparr>\<rparr>),
        (\<lambda>c. case decode_inline b of
                Inl e \<Rightarrow> Inl (e, c)
              | Inr audioBuffer \<Rightarrow> Inr (schedule_buffer now audioBuffer c))])" for b
  proof (rule preserves_seq)
    have "preserves playback_inv (exec (setAudioSessionStatus ai_speaking))"
      by (simp add: keeps_preserves keeps_exec sched_simps)
    moreover have "preserves playback_inv
        (exec (\<lambda>c. c\<lparr>refs := (refs c)\<lparr>nextAudioStartTimeRef :=
                     max (nextAudioStartTimeRef (refs c)) now\<rparr>\<rparr>))"
      using inv_max by (simp add: preserves_def exec_def state_of_def)
    moreover have "preserves playback_inv
        (\<lambda>c. case decode_inline b of
                Inl e \<Rightarrow> Inl (e, c)
              | Inr audioBuffer \<Rightarrow> Inr (schedule_buffer now audioBuffer c))"
      using inv_schedule_buffer
      by (cases "decode_inline b") (simp_all add: preserves_def state_of_def)
    ultimately show "list_all (preserves playback_inv)
       [exec (setAudioSessionStatus ai_speaking),
        exec (\<lambda>c. c\<lparr>refs := (refs c)\<lparr>nextAudioStartTimeRef :=
                     max (nextAudioStartTimeRef (refs c)) now\<rparr>\<rparr>),
        (\<lambda>c. case decode_inline b of
                Inl e \<Rightarrow> Inl (e, c)
              | Inr audioBuffer \<Rightarrow> Inr (schedule_buffer now audioBuffer c))]"
      by simp
  qed
  show ?thesis
    unfolding preserves_def
  proof (intro allI impI)
    fix c
    assume P: "playback_inv c"
    show "playback_inv (state_of (on_audio now message c))"
    proof (cases "inlineData message")
      case None
      with P show ?thesis by (simp add: on_audio_def state_of_def)
    next
      case (Some b)
      show ?thesis
      proof (cases "b = [] \<or> outputAudioContextRef (refs c) = None")
        case True
        with P Some show ?thesis by (auto simp: on_audio_def state_of_def)
      next
        case False
        then have "b \<noteq> []" and "outputAudioContextRef (refs c) \<noteq> None" by simp_all
        with Some have "on_audio now message c =
          seq [
            exec (setAudioSessionStatus ai_speaking),
            exec (\<lambda>c. c\<lparr>refs := (refs c)\<lparr>nextAudioStartTimeRef :=
                         max (nextAudioStartTimeRef (refs c)) now\<rparr>\<rparr>),
            (\<lambda>c. case decode_inline b of
                    Inl e \<Rightarrow> Inl (e, c)
                  | Inr audioBuffer \<Rightarrow> Inr (schedule_buffer now audioBuffer c))] c"
          by (simp only: on_audio_def option.case if_False simp_thms)
        with steps [of b] P show ?thesis by (simp add: preserves_def)
      qed
    qed
  qed
qed

lemma preserves_onmessage: "preserves playback_inv (onmessage now message)"
  unfolding onmessage_def
  by (rule preserves_seq)
     (simp add: keeps_preserves keeps_on_inputTranscription keeps_on_outputTranscription
        keeps_on_turnComplete preserves_on_audio)

lemma inv_timer_fires: "playback_inv c \<Longrightarrow> playback_inv (timer_fires k c)"
proof -
  assume inv: "playback_inv c"
  then have "list_all timer_armed_ok (take k (timers (env c)) @ drop (Suc k) (timers (env c)))"
    by (auto simp: playback_inv_def list_all_iff dest: in_set_takeD in_set_dropD)
  with inv show ?thesis
    by (simp add: timer_fires_def timer_callback_def setAudioSessionStatus_def
        playback_inv_def)
qed

lemma preserves_handler: "preserves playback_inv (handler e)"
proof (cases e)
  case ClickAudio
  have "preserves playback_inv startLiveAudioSession_begin"
    by (rule keeps_preserves) (rule keeps_begin)
  then show ?thesis using ClickAudio
    by (auto simp: preserves_def state_of_def fun_eq_iff)
next
  case (MicSettled snap mic)
  have "handler (MicSettled snap mic) = startLiveAudioSession_resume snap mic"
    by (rule ext) simp
  with MicSettled show ?thesis by (simp add: keeps_preserves keeps_resume)
next
  case Open
  have "handler Open = onopen" by (rule ext) simp
  with Open show ?thesis by (simp add: keeps_preserves keeps_onopen)
next
  case (Message now message)
  have "handler (Message now message) = onmessage now message" by (rule ext) simp
  with Message show ?thesis by (simp add: preserves_onmessage)
next
  case (AudioProcess inputData)
  have "handler (AudioProcess inputData) = onaudioprocess inputData" by (rule ext) simp
  with AudioProcess show ?thesis by (simp add: keeps_preserves keeps_onaudioprocess)
next
  case (Ended source)
  have "playback_inv (on_ended source c) = playback_inv c" for c
    by (rule playback_inv_sched) (simp add: sched_simps)
  with Ended show ?thesis
    by (simp add: preserves_def state_of_def)
next
  case (TimerFires now k)
  then show ?thesis
    using inv_timer_fires by (simp add: preserves_def state_of_def)
next
  case ClickEnd
  then show ?thesis
    using keeps_preserves [OF keeps_handleEndSession]
    by (simp add: preserves_def)
next
  case (ConnError snap)
  have "handler (ConnError snap) = onerror snap" by (rule ext) simp
  with ConnError show ?thesis by (simp add: keeps_preserves keeps_onerror)
next
  case Reset
  have "handler Reset = resetToIdle" by (rule ext) simp
  with Reset show ?thesis by (simp add: keeps_preserves keeps_resetToIdle)
qed

lemma inv_dispatch:
  assumes "playback_inv c"
  shows "playback_inv (dispatch c e)"
proof -
  from assms preserves_handler [of e] have "playback_inv (state_of (handler e c))"
    by (simp add: preserves_def)
  then have "playback_inv (state_of (render (state_of (handler e c))))"
    using keeps_preserves [OF keeps_render] by (simp add: preserves_def)
  moreover have "playback_inv (sync_status_ref c') = playback_inv c'" for c'
    by (rule playback_inv_sched) (simp add: sched_simps)
  ultimately show ?thesis by (simp add: dispatch_def)
qed

lemma inv_run: "playback_inv c \<Longrightarrow> playback_inv (run es c)"
  unfolding run_def
  by (induction es arbitrary: c) (simp_all add: inv_dispatch)

lemma inv_mounted: "playback_inv (mounted\<lparr>ui := u\<rparr>)"
  by (simp add: playback_inv_def mounted_def)

lemma quiet_ui: "ui c' = ui c \<Longrightarrow> quiet c' = quiet c"
  by (simp add: quiet_def)

lemma quiet_exec_ui: "(\<And>c. ui (f c) = ui c) \<Longrightarrow> preserves quiet (exec f)"
  by (simp add: preserves_def exec_def state_of_def quiet_def)

lemma quiet_exec_status:
  "v \<noteq> listening \<Longrightarrow> preserves quiet (exec (setAudioSessionStatus v))"
  by (simp add: preserves_def exec_def state_of_def quiet_def setAudioSessionStatus_def)

lemma quiet_setters:
  "preserves quiet (exec (setSessionState a))"
  "preserves quiet (exec (setIsLoading b))"
  "preserves quiet (exec (setError e))"
  "preserves quiet (exec (setIsAudioSessionActive b))"
  "preserves quiet (exec (setChatSession h))"
  "preserves quiet (exec (setMessages ms))"
  "preserves quiet (exec (setIsSpeaking b))"
  "preserves quiet (exec (setQuestions qs))"
  "preserves quiet (exec (setAnswers qs))"
  "preserves quiet (exec (setFeedback f))"
  "preserves quiet (exec (setTimeLeft t))"
  "preserves quiet (exec (setCompletedSession cs))"
  by (simp_all add: preserves_def exec_def state_of_def quiet_def setSessionState_def
      setIsLoading_def setError_def setIsAudioSessionActive_def setChatSession_def
      setMessages_def setIsSpeaking_def setQuestions_def setAnswers_def setFeedback_def
      setTimeLeft_def setCompletedSession_def)

lemma ui_simps:
  "ui (synth_cancel c) = ui c"
  "ui (clear_interval c) = ui c"
  "ui (on_ref r session_close c) = ui c"
  "ui (on_ref r stop_tracks c) = ui c"
  "ui (on_ref r disconnect c) = ui c"
  "ui (on_ref r close_context c) = ui c"
  "ui (acquire_stream c) = ui c"
  "ui (new_input_context c) = ui c"
  "ui (new_output_context c) = ui c"
  "ui (live_connect c) = ui c"
  "ui (wire_capture c) = ui c"
  "ui (on_ended source c) = ui c"
  "ui (schedule_buffer now a c) = ui c"
  by (simp_all add: synth_cancel_def clear_interval_def on_ref_session_close
      on_ref_stop_tracks on_ref_disconnect on_ref_close_context acquire_stream_def
      new_input_context_def new_output_context_def live_connect_def wire_capture_def
      on_ended_def schedule_buffer_def fresh_def Let_def split: option.splits)

lemma quiet_stop_sources: "preserves quiet (\<lambda>c. stop_sources (g c) c)"
proof -
  have "ui (state_of (stop_sources hs c)) = ui c" for hs c
  proof (induction hs arbitrary: c)
    case Nil
    show ?case by (simp add: state_of_def)
  next
    case (Cons h hs)
    show ?case
    proof (cases "h \<in> started_sources (env c)")
      case False
      then show ?thesis by (simp add: source_stop_def state_of_def)
    next
      case True
      then have "stop_sources (h # hs) c =
          stop_sources hs (c\<lparr>env := (env c)\<lparr>stopped_sources := insert h (stopped_sources (env c))\<rparr>\<rparr>)"
        by (simp add: source_stop_def)
      with Cons show ?thesis by simp
    qed
  qed
  then show ?thesis by (simp add: preserves_def quiet_def)
qed

lemma quiet_cleanupAudio: "preserves quiet cleanupAudio"
  unfolding cleanupAudio_def
  by (rule preserves_seq)
     (simp add: quiet_exec_ui ui_simps quiet_setters quiet_stop_sources)

lemma quiet_resetToIdle: "preserves quiet resetToIdle"
  unfolding resetToIdle_def
  by (rule preserves_seq)
     (simp add: quiet_exec_ui ui_simps quiet_setters quiet_exec_status quiet_cleanupAudio)

lemma quiet_handleEndSession: "preserves quiet (handleEndSession snap)"
proof -
  have "preserves quiet (\<lambda>c. if sessionState snap = SS_chat_active \<and>
                length (messages snap) > (if isAudioSessionActive snap then 0 else 1)
             then (case modalConfig snap of
                     None \<Rightarrow> Inl (TypeError, c)
                   | Some t \<Rightarrow>
                       seq [
                         exec (setCompletedSession
                           (Some \<lparr>cs_messages = messages snap, cs_type = t,
                                  cs_isAudio = isAudioSessionActive snap\<rparr>)),
                         exec (setSessionState SS_session_completed)] c)
             else resetToIdle c)"
    using quiet_resetToIdle
    by (cases "modalConfig snap")
       (simp_all add: preserves_def exec_def state_of_def quiet_def
          setCompletedSession_def setSessionState_def)
  then show ?thesis
    unfolding handleEndSession_def
    by (intro preserves_seq)
       (simp add: quiet_exec_ui ui_simps quiet_setters quiet_cleanupAudio)
qed

lemma quiet_begin: "preserves quiet startLiveAudioSession_begin"
  unfolding startLiveAudioSession_begin_def
  by (rule preserves_seq) (simp add: quiet_setters quiet_exec_status)

lemma quiet_resume: "preserves quiet (startLiveAudioSession_resume snap mic)"
  unfolding startLiveAudioSession_resume_def
  by (cases mic)
     (simp_all add: preserves_seq quiet_exec_ui ui_simps quiet_setters
        quiet_handleEndSession del: seq.simps)

lemma quiet_onerror: "preserves quiet (onerror snap)"
  unfolding onerror_def
  by (rule preserves_seq) (simp add: quiet_setters quiet_handleEndSession)

lemma quiet_onopen: "preserves quiet onopen"
  unfolding onopen_def
  by (rule preserves_seq)
     (simp add: quiet_setters quiet_exec_status quiet_exec_ui ui_simps)

lemma quiet_onaudioprocess: "preserves quiet (onaudioprocess inputData)"
  by (simp add: preserves_def onaudioprocess_def state_of_def quiet_def
      split: sum.splits option.splits)

lemma quiet_render: "quiet (state_of (render c)) = quiet c"
  by (simp add: render_def state_of_def quiet_def split: sum.splits)

lemma quiet_on_inputTranscription: "preserves quiet (on_inputTranscription message)"
  unfolding on_inputTranscription_def
  by (cases "inputTranscription message")
     (simp_all add: preserves_seq quiet_exec_ui quiet_setters del: seq.simps)

lemma quiet_on_outputTranscription: "preserves quiet (on_outputTranscription message)"
  unfolding on_outputTranscription_def
  by (cases "outputTranscription message")
     (simp_all add: preserves_seq quiet_exec_ui quiet_setters del: seq.simps)

lemma quiet_on_turnComplete: "preserves quiet (on_turnComplete message)"
  unfolding on_turnComplete_def
  by (simp add: preserves_seq quiet_exec_ui del: seq.simps)

lemma quiet_on_audio: "preserves quiet (on_audio now message)"
proof -
  have steps: "preserves quiet
     (seq [
        exec (setAudioSessionStatus ai_speaking),
        exec (\<lambda>c. c\<lparr>refs := (refs c)\<lparr>nextAudioStartTimeRef :=
                     max (nextAudioStartTimeRef (refs c)) now\<rparr>\<rparr>),
        (\<lambda>c. case decode_inline b of
                Inl e \<Rightarrow> Inl (e, c)
              | Inr audioBuffer \<Rightarrow> Inr (schedule_buffer now audioBuffer c))])" for b
  proof (rule preserves_seq)
    have "preserves quiet
        (\<lambda>c. case decode_inline b of
                Inl e \<Rightarrow> Inl (e, c)
              | Inr audioBuffer \<Rightarrow> Inr (schedule_buffer now audioBuffer c))"
      by (cases "decode_inline b")
         (simp_all add: preserves_def state_of_def quiet_def ui_simps)
    then show "list_all (preserves quiet)
       [exec (setAudioSessionStatus ai_speaking),
        exec (\<lambda>c. c\<lparr>refs := (refs c)\<lparr>nextAudioStartTimeRef :=
                     max (nextAudioStartTimeRef (refs c)) now\<rparr>\<rparr>),
        (\<lambda>c. case decode_inline b of
                Inl e \<Rightarrow> Inl (e, c)
              | Inr audioBuffer \<Rightarrow> Inr (schedule_buffer now audioBuffer c))]"
      by (simp add: quiet_exec_status quiet_exec_ui)
  qed
  show ?thesis
    unfolding preserves_def
  proof (intro allI impI)
    fix c
    assume P: "quiet c"
    show "quiet (state_of (on_audio now message c))"
    proof (cases "inlineData message")
      case None
      with P show ?thesis by (simp add: on_audio_def state_of_def)
    next
      case (Some b)
      show ?thesis
      proof (cases "b = [] \<or> outputAudioContextRef (refs c) = None")
        case True
        with P Some show ?thesis by (auto simp: on_audio_def state_of_def)
      next
        case False
        then have "b \<noteq> []" and "outputAudioContextRef (refs c) \<noteq> None" by simp_all
        with Some have "on_audio now message c =
          seq [
            exec (setAudioSessionStatus ai_speaking),
            exec (\<lambda>c. c\<lparr>refs := (refs c)\<lparr>nextAudioStartTimeRef :=
                         max (nextAudioStartTimeRef (refs c)) now\<rparr>\<rparr>),
            (\<lambda>c. case decode_inline b of
                    Inl e \<Rightarrow> Inl (e, c)
                  | Inr audioBuffer \<Rightarrow> Inr (schedule_buffer now audioBuffer c))] c"
          by (simp only: on_audio_def option.case if_False simp_thms)
        with steps [of b] P show ?thesis by (simp add: preserves_def)
      qed
    qed
  qed
qed

lemma quiet_onmessage: "preserves quiet (onmessage now message)"
  unfolding onmessage_def
  by (rule preserves_seq)
     (simp add: quiet_on_inputTranscription quiet_on_outputTranscription
        quiet_on_turnComplete quiet_on_audio)

lemma listening_only_by_timer:
  assumes before: "audioSessionStatus (ui c) \<noteq> listening"
    and after: "audioSessionStatus (ui (dispatch c e)) = listening"
  shows "\<exists>now k. e = TimerFires now k \<and> k < length (timers (env c)) \<and>
           timer_due now (timers (env c) ! k)"
proof -
  have sync: "quiet (sync_status_ref c') = quiet c'" for c'
    by (simp add: quiet_def sync_status_ref_def)
  have loud: "\<not> quiet (state_of (handler e c))"
    using after sync [of "state_of (render (state_of (handler e c)))"] quiet_render
    by (simp add: dispatch_def quiet_def)
  have q: "quiet c" using before by (simp add: quiet_def)
  have other: "preserves quiet (handler e') \<Longrightarrow> e \<noteq> e'" for e'
    using q loud by (auto simp: preserves_def)
  show ?thesis
  proof (cases e)
    case ClickAudio
    have "preserves quiet (handler ClickAudio)"
      using quiet_begin by (auto simp: preserves_def state_of_def)
    with other ClickAudio show ?thesis by blast
  next
    case (MicSettled snap mic)
    have "handler (MicSettled snap mic) = startLiveAudioSession_resume snap mic"
      by (rule ext) simp
    with other [of "MicSettled snap mic"] MicSettled quiet_resume show ?thesis by simp
  next
    case Open
    have "handler Open = onopen" by (rule ext) simp
    with other [of Open] Open quiet_onopen show ?thesis by simp
  next
    case (Message now message)
    have "handler (Message now message) = onmessage now message" by (rule ext) simp
    with other [of "Message now message"] Message quiet_onmessage show ?thesis by simp
  next
    case (AudioProcess inputData)
    have "handler (AudioProcess inputData) = onaudioprocess inputData" by (rule ext) simp
    with other [of "AudioProcess inputData"] AudioProcess quiet_onaudioprocess
    show ?thesis by simp
  next
    case (Ended source)
    have "preserves quiet (handler (Ended source))"
      by (simp add: preserves_def state_of_def quiet_def ui_simps)
    with other Ended show ?thesis by blast
  next
    case (TimerFires now k)
    show ?thesis
    proof (cases "k < length (timers (env c)) \<and> timer_due now (timers (env c) ! k)")
      case True
      with TimerFires show ?thesis by blast
    next
      case False
      with TimerFires have "state_of (handler e c) = c"
        by (auto simp: state_of_def)
      with loud q show ?thesis by simp
    qed
  next
    case ClickEnd
    have "preserves quiet (handler ClickEnd)"
      using quiet_handleEndSession by (simp add: preserves_def)
    with other ClickEnd show ?thesis by blast
  next
    case (ConnError snap)
    have "handler (ConnError snap) = onerror snap" by (rule ext) simp
    with other [of "ConnError snap"] ConnError quiet_onerror show ?thesis by simp
  next
    case Reset
    have "handler Reset = resetToIdle" by (rule ext) simp
    with other [of Reset] Reset quiet_resetToIdle show ?thesis by simp
  qed
qed

text \<open>
  C5. The callback of a timer sets the status to \<^verbatim>\<open>listening\<close> exactly when
  \<^verbatim>\<open>nextAudioStartTimeRef\<close> is not beyond the end time the timer was armed for: a
  buffer scheduled later, which moves \<^verbatim>\<open>nextAudioStartTimeRef\<close> strictly beyond it,
  keeps the status as it is. The \<^verbatim>\<open>ended\<close> event of a source does not touch the
  status. And in every state the event loop reaches from the mounted component (with any
  React state), when a pending timer fires no earlier than its delay (read on the output
  clock) and takes the status from \<^verbatim>\<open>ai_speaking\<close> to \<^verbatim>\<open>listening\<close>, every buffer
  scheduled so far, the latest one included, has its scheduled end at or before the
  current time. No other handler takes the status to \<^verbatim>\<open>listening\<close>: an event after
  which the status is \<^verbatim>\<open>listening\<close> and was not before is a pending, due timer
  firing.
\<close>

theorem status_timer:
  "(\<forall>c k. k < length (timers (env c)) \<longrightarrow>
      audioSessionStatus (ui (timer_fires k c)) =
        (if nextAudioStartTimeRef (refs c) \<le> scheduledEndTime (timers (env c) ! k)
         then listening else audioSessionStatus (ui c))) \<and>
   (\<forall>c source. audioSessionStatus (ui (on_ended source c)) = audioSessionStatus (ui c)) \<and>
   (\<forall>u es now k.
      (let c = run es (mounted\<lparr>ui := u\<rparr>) in
       k < length (timers (env c)) \<and> timer_due now (timers (env c) ! k) \<and>
       audioSessionStatus (ui c) = ai_speaking \<and>
       audioSessionStatus (ui (timer_fires k c)) = listening \<longrightarrow>
       nextAudioStartTimeRef (refs c) \<le> scheduledEndTime (timers (env c) ! k) \<and>
       list_all (ends_by now) (playback (env c)))) \<and>
   (\<forall>c e.
      audioSessionStatus (ui c) \<noteq> listening \<and>
      audioSessionStatus (ui (dispatch c e)) = listening \<longrightarrow>
      (\<exists>now k. e = TimerFires now k \<and> k < length (timers (env c)) \<and>
         timer_due now (timers (env c) ! k)))"
proof (intro conjI allI)
  fix c k
  show "k < length (timers (env c)) \<longrightarrow>
      audioSessionStatus (ui (timer_fires k c)) =
        (if nextAudioStartTimeRef (refs c) \<le> scheduledEndTime (timers (env c) ! k)
         then listening else audioSessionStatus (ui c))"
    by (simp add: timer_fires_def timer_callback_def setAudioSessionStatus_def)
next
  fix c source
  show "audioSessionStatus (ui (on_ended source c)) = audioSessionStatus (ui c)"
    by (simp add: on_ended_def)
next
  fix u es now k
  define c where "c = run es (mounted\<lparr>ui := u\<rparr>)"
  have inv: "playback_inv c"
    unfolding c_def by (rule inv_run) (rule inv_mounted)
  have "nextAudioStartTimeRef (refs c) \<le> scheduledEndTime (timers (env c) ! k) \<and>
       list_all (ends_by now) (playback (env c))"
    if k: "k < length (timers (env c))" and due: "timer_due now (timers (env c) ! k)"
      and before: "audioSessionStatus (ui c) = ai_speaking"
      and after: "audioSessionStatus (ui (timer_fires k c)) = listening"
  proof -
    from k before after
    have guard: "nextAudioStartTimeRef (refs c) \<le> scheduledEndTime (timers (env c) ! k)"
      by (simp add: timer_fires_def timer_callback_def setAudioSessionStatus_def
          split: if_splits)
    from inv k have "timer_armed_ok (timers (env c) ! k)"
      by (simp add: playback_inv_def list_all_length)
    with due have "scheduledEndTime (timers (env c) ! k) \<le> now"
      by (simp add: timer_armed_ok_def timer_due_def)
    with guard have "nextAudioStartTimeRef (refs c) \<le> now" by simp
    moreover from inv
    have "list_all (ends_by (nextAudioStartTimeRef (refs c))) (playback (env c))"
      by (simp add: playback_inv_def)
    ultimately have "list_all (ends_by now) (playback (env c))"
      by (rule list_all_ends_by_mono)
    with guard show ?thesis by simp
  qed
  then show "let c = run es (mounted\<lparr>ui := u\<rparr>) in
       k < length (timers (env c)) \<and> timer_due now (timers (env c) ! k) \<and>
       audioSessionStatus (ui c) = ai_speaking \<and>
       audioSessionStatus (ui (timer_fires k c)) = listening \<longrightarrow>
       nextAudioStartTimeRef (refs c) \<le> scheduledEndTime (timers (env c) ! k) \<and>
       list_all (ends_by now) (playback (env c))"
    unfolding Let_def c_def by blast
next
  fix c e
  show "audioSessionStatus (ui c) \<noteq> listening \<and>
      audioSessionStatus (ui (dispatch c e)) = listening \<longrightarrow>
      (\<exists>now k. e = TimerFires now k \<and> k < length (timers (env c)) \<and>
         timer_due now (timers (env c) ! k))"
    using listening_only_by_timer [of c e] by blast
qed

lemma run_one_buffer:
  "run [MicSettled (ui mounted) True, Message 0 audio_msg] mounted =
     mounted\<lparr>
       ui := (ui mounted)\<lparr>audioSessionStatus := ai_speaking\<rparr>,
       refs := (refs mounted)\<lparr>audioSessionStatusRef := ai_speaking,
          mediaStreamRef := Some 0, inputAudioContextRef := Some 1,
          outputAudioContextRef := Some 2, sessionPromiseRef := Some 3,
          nextAudioStartTimeRef := 1 / 24000, audioSourcesRef := [4]\<rparr>,
       env := (env mounted)\<lparr>next_handle := 5, live_streams := {0}, open_contexts := {1, 2},
          open_sessions := {3}, started_sources := {4},
          playback := [(4, 0, 1 / 24000)],
          timers := [\<lparr>armed_at = 0, delay_ms = 1 / 24, scheduledEndTime = 1 / 24000\<rparr>]\<rparr>\<rparr>"
  by (simp add: handler_defs onmessage_audio_msg schedule_buffer_def Let_def duration_def
      mounted_def insert_commute eval_nat_numeral)

lemma mounted_ui: "mounted\<lparr>ui := ui mounted\<rparr> = mounted"
  by simp

theorem status_timer_witness:
  "(let c = run [MicSettled (ui mounted) True, Message 0 audio_msg] mounted in
      0 < length (timers (env c)) \<and> timer_due (1 / 24000) (timers (env c) ! 0) \<and>
      audioSessionStatus (ui c) = ai_speaking \<and>
      audioSessionStatus (ui (timer_fires 0 c)) = listening \<and>
      nextAudioStartTimeRef (refs c) \<le> scheduledEndTime (timers (env c) ! 0) \<and>
      list_all (ends_by (1 / 24000)) (playback (env c)))"
proof -
  let ?c = "run [MicSettled (ui mounted) True, Message 0 audio_msg] mounted"
  have hyps: "0 < length (timers (env ?c)) \<and> timer_due (1 / 24000) (timers (env ?c) ! 0) \<and>
      audioSessionStatus (ui ?c) = ai_speaking \<and>
      audioSessionStatus (ui (timer_fires 0 ?c)) = listening"
    by (simp add: run_one_buffer timer_due_def timer_fires_def timer_callback_def
        setAudioSessionStatus_def)
  from status_timer [THEN conjunct2, THEN conjunct2, THEN conjunct1, rule_format,
      where u = "ui mounted" and es = "[MicSettled (ui mounted) True, Message 0 audio_msg]"
        and now = "1 / 24000" and k = 0]
    hyps
  have "nextAudioStartTimeRef (refs ?c) \<le> scheduledEndTime (timers (env ?c) ! 0) \<and>
      list_all (ends_by (1 / 24000)) (playback (env ?c))"
    by (simp only: Let_def component.update_convs component.select_convs
        component.surjective [symmetric] mounted_ui)
  with hyps show ?thesis by (simp only: Let_def)
qed

subsection \<open>C6: a timer that fires after teardown\<close>

lemma run_session_reset:
  "run [ClickAudio, MicSettled (ui text_chat) True, Open, Message 0 audio_msg, ClickEnd,
        Reset] text_chat =
   text_chat\<lparr>
     ui := (ui text_chat)\<lparr>sessionState := SS_idle, chatSession := None, messages := []\<rparr>,
     refs := (refs text_chat)\<lparr>nextAudioStartTimeRef := 1 / 24000\<rparr>,
     env := (env text_chat)\<lparr>next_handle := 8, started_sources := {7},
        stopped_sources := {7}, playback := [(7, 0, 1 / 24000)],
        timers := [\<lparr>armed_at = 0, delay_ms = 1 / 24, scheduledEndTime = 1 / 24000\<rparr>]\<rparr>\<rparr>"
  by (auto simp: handler_defs teardown_defs audio_button_enabled_def onmessage_audio_msg
      schedule_buffer_def Let_def duration_def text_chat_def mounted_def eval_nat_numeral)

text \<open>
  C6 fails on the code. An audio session is started from the text chat, one buffer is
  scheduled, the End Session button and then the Discard button (\<^verbatim>\<open>resetToIdle\<close>)
  are clicked while the buffer plays: the status is
  \<^verbatim>\<open>idle\<close>, every resource reference is \<^verbatim>\<open>null\<close>, and the timer armed for the
  buffer is still pending. \<^verbatim>\<open>cleanupAudio\<close> does not change
  \<^verbatim>\<open>nextAudioStartTimeRef\<close>, which is all the timer's guard looks at: when the timer
  fires, the status becomes \<^verbatim>\<open>listening\<close> in the idle component.
\<close>

theorem stale_timer_sets_listening:
  "(let c = run [ClickAudio, MicSettled (ui text_chat) True, Open, Message 0 audio_msg,
                 ClickEnd, Reset] text_chat
    in sessionState (ui c) = SS_idle \<and> audioSessionStatus (ui c) = idle \<and>
       all_released c \<and> length (timers (env c)) = 1 \<and>
       timer_due 1 (timers (env c) ! 0) \<and>
       audioSessionStatus (ui (dispatch c (TimerFires 1 0))) = listening \<and>
       sessionState (ui (dispatch c (TimerFires 1 0))) = SS_idle)"
  unfolding Let_def run_session_reset
  by (simp add: all_released_def timer_due_def dispatch_def render_def
      state_of_def sync_status_ref_def timer_fires_def timer_callback_def
      setAudioSessionStatus_def text_chat_def mounted_def)

subsection \<open>C7: microphone access denied\<close>

text \<open>
  C7 fails on the code. From a text chat that holds only the model's opening message, the
  audio button is clicked and \<^verbatim>\<open>getUserMedia\<close> rejects. The \<^verbatim>\<open>catch\<close> block
  sets the error message and calls \<^verbatim>\<open>handleEndSession\<close>, which calls
  \<^verbatim>\<open>resetToIdle\<close>, which sets the error to \<^verbatim>\<open>null\<close>: after the abort the
  component is idle with no error message, and \<^verbatim>\<open>isLoading\<close>, set at the start, is
  still true.
\<close>

theorem microphone_error_not_surfaced:
  "(let c = run [ClickAudio, MicSettled (ui text_chat) False] text_chat
    in sessionState (ui c) = SS_idle \<and> audioSessionStatus (ui c) = idle \<and>
       error (ui c) = None \<and> isLoading (ui c) = True)"
  by (simp add: handler_defs teardown_defs audio_button_enabled_def text_chat_def mounted_def)

subsection \<open>C8: one audio session at a time\<close>








end
